theory Spec2Isabelle
  imports Main "HOL-Library.AList" "HOL-Library.Sublist"
begin

section \<open>Data model\<close>

text \<open>
  Values exchanged as JSON: the inbound turn data, the body of a Notion reply and the
  page properties sent out. Numbers are restricted to integers; an object is the list of
  its properties, looked up by name.
\<close>

datatype json =
    JNull
  | JBool bool
  | JNum int
  | JStr string
  | JArr "json list"
  | JObj "(string \<times> json) list"

text \<open>JavaScript truthiness of a JSON value, as used by \<open>!x\<close>, \<open>x || y\<close> and \<open>if (x)\<close>.\<close>

fun truthy :: "json \<Rightarrow> bool" where
  "truthy JNull = False"
| "truthy (JBool b) = b"
| "truthy (JNum n) = (n \<noteq> 0)"
| "truthy (JStr s) = (s \<noteq> [])"
| "truthy (JArr xs) = True"
| "truthy (JObj fs) = True"

text \<open>\<open>typeof v === 'object'\<close>: true of objects, arrays and \<open>null\<close>.\<close>

fun typeof_object :: "json \<Rightarrow> bool" where
  "typeof_object JNull = True"
| "typeof_object (JArr xs) = True"
| "typeof_object (JObj fs) = True"
| "typeof_object v = False"

text \<open>
  Reading a property \<open>v.name\<close> of a value other than \<open>null\<close>: \<open>None\<close> is
  \<open>undefined\<close>. None of the names read by the worker (name, status, description, id)
  is defined on an array, a string, a number or a boolean.
\<close>

fun get_prop :: "json \<Rightarrow> string \<Rightarrow> json option" where
  "get_prop (JObj fs) name = map_of fs name"
| "get_prop v name = None"

text \<open>Truthiness of a property that may be \<open>undefined\<close>.\<close>

fun truthy_opt :: "json option \<Rightarrow> bool" where
  "truthy_opt None = False"
| "truthy_opt (Some v) = truthy v"

text \<open>The message of the TypeError raised by reading a property of \<open>null\<close>.\<close>

definition TypeError_null :: "string \<Rightarrow> string" where
  "TypeError_null name =
     ''Cannot read properties of null (reading '' @ [CHR 0x27] @ name @ [CHR 0x27] @ '')''"

text \<open>Decimal rendering of a non-negative integer, as a template literal prints it.\<close>

definition digit_char :: "nat \<Rightarrow> char" where
  "digit_char d = char_of (48 + d)"

function show_nat :: "nat \<Rightarrow> string" where
  "show_nat n = (if n < 10 then [digit_char n] else show_nat (n div 10) @ [digit_char (n mod 10)])"
  by pat_completeness auto
termination
  by (relation "measure (\<lambda>n. n)") auto

declare show_nat.simps [simp del]

text \<open>
  The record kept in the queue under one key: the wrapped turn data, the time of
  enqueueing and the retry counter. \<open>retries = None\<close> is a record without the field,
  which \<open>item.retries || 0\<close> reads as 0.
\<close>

record queued_item =
  data :: json
  timestamp :: nat
  retries :: "nat option"

text \<open>The worker's bindings: two secrets and the KV namespace (bound or not).\<close>

record env =
  NOTION_API_KEY :: "string option"
  NOTION_DATABASE_ID :: "string option"
  QUEUE_KV :: bool

text \<open>\<open>!s\<close> on a binding: an unset secret and the empty string are both falsy.\<close>

fun missing :: "string option \<Rightarrow> bool" where
  "missing None = True"
| "missing (Some s) = (s = [])"

text \<open>The text a binding contributes to a string it is spliced into.\<close>

fun secret :: "string option \<Rightarrow> string" where
  "secret None = ''undefined''"
| "secret (Some s) = s"

text \<open>The page-creation request sent to Notion.\<close>

record notion_request =
  authorization :: string
  database_id :: string
  Name_content :: json
  Status_name :: "json option"
  Description_content :: "json option"
  Timestamp_start :: nat

text \<open>
  What \<open>fetch\<close> gives back: a rejected promise carrying the exception's message, or a
  response. Reading the body as text or as JSON may itself throw (\<open>Inl\<close> the message).
\<close>

record response =
  status :: nat
  retry_after :: "string option"
  text_body :: "string + string"
  json_body :: "string + json"

datatype fetch_result = Rejected string | Resolved response

text \<open>\<open>response.ok\<close>\<close>

definition ok :: "response \<Rightarrow> bool" where
  "ok r = (200 \<le> status r \<and> status r \<le> 299)"

text \<open>
  The object returned by \<open>writeToNotion\<close>:
  \<open>{success: true, pageId}\<close>, \<open>{success: false, rateLimited: true, retryAfter}\<close> or
  \<open>{success: false, error}\<close>. The callers test \<open>success\<close> first, then
  \<open>rateLimited\<close>.
\<close>

datatype notion_result =
    Delivered "json option"
  | RateLimited "string option"
  | Failed string

datatype log_level = LOG | WARN | ERROR

section \<open>The platform and the world\<close>

text \<open>
  Everything outside the worker is an oracle indexed by how often it has been consulted:
  the reply of Notion to the n-th outbound call, whether the n-th KV operation throws,
  the n-th reading of the clock (milliseconds) and the n-th random suffix
  \<open>Math.random().toString(36).substr(2, 9)\<close>.
\<close>

datatype kv_call =
    KV_list string
  | KV_get string
  | KV_put string queued_item nat
  | KV_delete string

record platform =
  notion :: "nat \<Rightarrow> notion_request \<Rightarrow> fetch_result"
  kv_fault :: "nat \<Rightarrow> string option"
  date_now :: "nat \<Rightarrow> nat"
  math_random :: "nat \<Rightarrow> string"

text \<open>
  The mutable state: the KV namespace (each key with its value and its
  \<open>expirationTtl\<close> in seconds), the KV operations issued so far, the counters of the
  other oracles, the console, and the number of promises handed to \<open>ctx.waitUntil\<close>.
\<close>

record world =
  kv :: "(string \<times> queued_item \<times> nat) list"
  kv_calls :: "kv_call list"
  fetch_calls :: nat
  clock_reads :: nat
  random_draws :: nat
  console :: "(log_level \<times> string) list"
  waiting :: nat

definition log_msg :: "log_level \<Rightarrow> string \<Rightarrow> world \<Rightarrow> world" where
  "log_msg lvl s w = w\<lparr>console := console w @ [(lvl, s)]\<rparr>"

definition Date_now :: "platform \<Rightarrow> world \<Rightarrow> nat \<times> world" where
  "Date_now p w = (date_now p (clock_reads w), w\<lparr>clock_reads := Suc (clock_reads w)\<rparr>)"

definition Math_random :: "platform \<Rightarrow> world \<Rightarrow> string \<times> world" where
  "Math_random p w = (math_random p (random_draws w), w\<lparr>random_draws := Suc (random_draws w)\<rparr>)"

definition fetch :: "platform \<Rightarrow> notion_request \<Rightarrow> world \<Rightarrow> fetch_result \<times> world" where
  "fetch p rq w = (notion p (fetch_calls w) rq, w\<lparr>fetch_calls := Suc (fetch_calls w)\<rparr>)"

subsection \<open>The KV namespace\<close>

text \<open>
  Each operation is recorded and consults the fault oracle once. An operation that
  throws leaves the namespace as it was.
\<close>

definition kv_tick :: "kv_call \<Rightarrow> world \<Rightarrow> world" where
  "kv_tick c w = w\<lparr>kv_calls := kv_calls w @ [c]\<rparr>"

definition kv_list :: "platform \<Rightarrow> string \<Rightarrow> world \<Rightarrow> (string + string list) \<times> world" where
  "kv_list p pre w =
     (case kv_fault p (length (kv_calls w)) of
        Some msg \<Rightarrow> (Inl msg, kv_tick (KV_list pre) w)
      | None \<Rightarrow> (Inr (filter (prefix pre) (map fst (kv w))), kv_tick (KV_list pre) w))"

definition kv_get :: "platform \<Rightarrow> string \<Rightarrow> world \<Rightarrow> (string + queued_item option) \<times> world" where
  "kv_get p key w =
     (case kv_fault p (length (kv_calls w)) of
        Some msg \<Rightarrow> (Inl msg, kv_tick (KV_get key) w)
      | None \<Rightarrow> (Inr (map_option fst (map_of (kv w) key)), kv_tick (KV_get key) w))"

definition kv_put :: "platform \<Rightarrow> string \<Rightarrow> queued_item \<Rightarrow> nat \<Rightarrow> world \<Rightarrow> (string + unit) \<times> world" where
  "kv_put p key v ttl w =
     (case kv_fault p (length (kv_calls w)) of
        Some msg \<Rightarrow> (Inl msg, kv_tick (KV_put key v ttl) w)
      | None \<Rightarrow> (Inr (), kv_tick (KV_put key v ttl) (w\<lparr>kv := AList.update key (v, ttl) (kv w)\<rparr>)))"

definition kv_delete :: "platform \<Rightarrow> string \<Rightarrow> world \<Rightarrow> (string + unit) \<times> world" where
  "kv_delete p key w =
     (case kv_fault p (length (kv_calls w)) of
        Some msg \<Rightarrow> (Inl msg, kv_tick (KV_delete key) w)
      | None \<Rightarrow> (Inr (), kv_tick (KV_delete key) (w\<lparr>kv := AList.delete key (kv w)\<rparr>)))"

section \<open>writeToNotion\<close>

text \<open>The \<open>catch\<close> of \<open>writeToNotion\<close>: log the error and return it as the result.\<close>

definition write_caught :: "string \<Rightarrow> world \<Rightarrow> notion_result \<times> world" where
  "write_caught msg w = (Failed msg, log_msg ERROR (''Error writing to Notion: '' @ msg) w)"

text \<open>\<open>turnData.name || `Turn ${Date.now()}`\<close>: the clock is read only for the default.\<close>

definition title_of :: "platform \<Rightarrow> json \<Rightarrow> world \<Rightarrow> json \<times> world" where
  "title_of p turnData w =
     (case get_prop turnData ''name'' of
        Some v \<Rightarrow> if truthy v then (v, w)
                  else (case Date_now p w of (t, w') \<Rightarrow> (JStr (''Turn '' @ show_nat t), w'))
      | None \<Rightarrow> (case Date_now p w of (t, w') \<Rightarrow> (JStr (''Turn '' @ show_nat t), w')))"

text \<open>An optional property is sent only when it is truthy.\<close>

definition optional_prop :: "json \<Rightarrow> string \<Rightarrow> json option" where
  "optional_prop turnData name =
     (if truthy_opt (get_prop turnData name) then get_prop turnData name else None)"

text \<open>The classification of a response that \<open>fetch\<close> resolved to.\<close>

definition classify :: "response \<Rightarrow> world \<Rightarrow> notion_result \<times> world" where
  "classify r w =
     (if status r = 429 then
        (RateLimited (retry_after r),
         log_msg LOG (''Rate limited by Notion. Retry after: '' @ (case retry_after r of None \<Rightarrow> ''null'' | Some s \<Rightarrow> s)) w)
      else if \<not> ok r then
        (case text_body r of
           Inl msg \<Rightarrow> write_caught msg w
         | Inr errorText \<Rightarrow>
             (Failed (''Notion API error: '' @ show_nat (status r)),
              log_msg ERROR (''Notion API error: '' @ show_nat (status r) @ '' '' @ errorText) w))
      else
        (case json_body r of
           Inl msg \<Rightarrow> write_caught msg w
         | Inr result \<Rightarrow>
             if result = JNull then write_caught (TypeError_null ''id'') w
             else (Delivered (get_prop result ''id''),
                   log_msg LOG ''Successfully created Notion page'' w)))"

text \<open>
  The request built from the turn data: the title (or its default), the optional status
  and description, and the delivery timestamp read from the clock.
\<close>

definition build_request :: "platform \<Rightarrow> env \<Rightarrow> json \<Rightarrow> world \<Rightarrow> notion_request \<times> world" where
  "build_request p e turnData w =
     (case title_of p turnData w of (title, w1) \<Rightarrow>
      (case Date_now p w1 of (now, w2) \<Rightarrow>
        (\<lparr>authorization = ''Bearer '' @ secret (NOTION_API_KEY e),
          database_id = secret (NOTION_DATABASE_ID e),
          Name_content = title,
          Status_name = optional_prop turnData ''status'',
          Description_content = optional_prop turnData ''description'',
          Timestamp_start = now\<rparr>, w2)))"

definition writeToNotion :: "platform \<Rightarrow> env \<Rightarrow> json \<Rightarrow> world \<Rightarrow> notion_result \<times> world" where
  "writeToNotion p e turnData w =
     (if missing (NOTION_API_KEY e) \<or> missing (NOTION_DATABASE_ID e) then
        write_caught ''Notion API credentials not configured'' w
      else if turnData = JNull then write_caught (TypeError_null ''name'') w
      else
        (case build_request p e turnData w of (rq, w2) \<Rightarrow>
         (case fetch p rq w2 of
            (Rejected msg, w3) \<Rightarrow> write_caught msg w3
          | (Resolved r, w3) \<Rightarrow> classify r w3)))"

section \<open>The retry queue\<close>

text \<open>\<open>`queue:${Date.now()}:${suffix}`\<close>\<close>

definition queue_key :: "nat \<Rightarrow> string \<Rightarrow> string" where
  "queue_key t r = ''queue:'' @ show_nat t @ '':'' @ r"

text \<open>
  \<open>queueInKV\<close>: without the binding, warn and return. Otherwise read the clock and the
  random suffix for the key, read the clock again for the record and put it with a TTL
  of 86400 seconds; an exception of the put is logged and swallowed.
\<close>

definition queueInKV :: "platform \<Rightarrow> env \<Rightarrow> json \<Rightarrow> world \<Rightarrow> world" where
  "queueInKV p e turnData w =
     (if \<not> QUEUE_KV e then log_msg WARN ''KV namespace not configured, skipping queue'' w
      else
        (case Date_now p w of (t, w1) \<Rightarrow>
         (case Math_random p w1 of (r, w2) \<Rightarrow>
         (case Date_now p w2 of (ts, w3) \<Rightarrow>
         (case kv_put p (queue_key t r) \<lparr>data = turnData, timestamp = ts, retries = Some 0\<rparr> 86400 w3 of
            (Inl msg, w4) \<Rightarrow> log_msg ERROR (''Error queuing in KV: '' @ msg) w4
          | (Inr u, w4) \<Rightarrow> log_msg LOG (''Queued turn data in KV: '' @ queue_key t r) w4)))))"

text \<open>The \<open>catch\<close> around one item of the sweep.\<close>

definition item_caught :: "string \<Rightarrow> string \<Rightarrow> world \<Rightarrow> world" where
  "item_caught key msg w = log_msg ERROR (''Error processing queue item '' @ key @ '': '' @ msg) w"

text \<open>\<open>item.retries || 0\<close>\<close>

definition retry_count :: "queued_item \<Rightarrow> nat" where
  "retry_count item = (case retries item of None \<Rightarrow> 0 | Some n \<Rightarrow> n)"

text \<open>
  The two failure branches of the sweep differ in the ceiling (5 when rate limited, 3
  otherwise) and in the message logged on giving up: \<open>item.retries\<close> becomes
  \<open>(item.retries || 0) + 1\<close>, and the record is put back with a TTL of 86400 seconds
  when the new count is below the ceiling, deleted otherwise.
\<close>

definition retry_or_drop :: "platform \<Rightarrow> string \<Rightarrow> queued_item \<Rightarrow> nat \<Rightarrow> string \<Rightarrow> world \<Rightarrow> world" where
  "retry_or_drop p key item ceiling gave_up w =
     (let item' = item\<lparr>retries := Some (retry_count item + 1)\<rparr> in
      if retry_count item + 1 < ceiling then
        (case kv_put p key item' 86400 w of
           (Inl msg, w1) \<Rightarrow> item_caught key msg w1
         | (Inr u, w1) \<Rightarrow> w1)
      else
        (case kv_delete p key w of
           (Inl msg, w1) \<Rightarrow> item_caught key msg w1
         | (Inr u, w1) \<Rightarrow> log_msg ERROR (gave_up @ key) w1))"

text \<open>
  The body of the sweep's loop for one listed key, in the two parts separated by the
  awaited delivery attempt. The first part reads the item and re-attempts its delivery;
  it yields nothing when the get throws (caught and logged) or finds no item.
\<close>

definition item_attempt ::
    "platform \<Rightarrow> env \<Rightarrow> string \<Rightarrow> world \<Rightarrow> (queued_item \<times> notion_result) option \<times> world" where
  "item_attempt p e key w =
     (case kv_get p key w of
        (Inl msg, w1) \<Rightarrow> (None, item_caught key msg w1)
      | (Inr None, w1) \<Rightarrow> (None, w1)
      | (Inr (Some item), w1) \<Rightarrow>
          (case writeToNotion p e (data item) w1 of (result, w2) \<Rightarrow> (Some (item, result), w2)))"

text \<open>The second part acts on the result with the item as it was read.\<close>

definition item_settle :: "platform \<Rightarrow> string \<Rightarrow> queued_item \<Rightarrow> notion_result \<Rightarrow> world \<Rightarrow> world" where
  "item_settle p key item result w =
     (case result of
        Delivered pageId \<Rightarrow>
          (case kv_delete p key w of
             (Inl msg, w1) \<Rightarrow> item_caught key msg w1
           | (Inr u, w1) \<Rightarrow> log_msg LOG (''Successfully processed queued item: '' @ key) w1)
      | RateLimited retryAfter \<Rightarrow>
          retry_or_drop p key item 5 ''Max retries reached for queued item: '' w
      | Failed err \<Rightarrow>
          retry_or_drop p key item 3 ''Failed to process queued item after retries: '' w)"

definition process_item :: "platform \<Rightarrow> env \<Rightarrow> string \<Rightarrow> world \<Rightarrow> world" where
  "process_item p e key w =
     (case item_attempt p e key w of
        (None, w1) \<Rightarrow> w1
      | (Some (item, result), w2) \<Rightarrow> item_settle p key item result w2)"

fun process_keys :: "platform \<Rightarrow> env \<Rightarrow> string list \<Rightarrow> world \<Rightarrow> world" where
  "process_keys p e [] w = w"
| "process_keys p e (key # keys) w = process_keys p e keys (process_item p e key w)"

definition processQueue :: "platform \<Rightarrow> env \<Rightarrow> world \<Rightarrow> world" where
  "processQueue p e w =
     (if \<not> QUEUE_KV e then w
      else
        (case kv_list p ''queue:'' w of
           (Inl msg, w1) \<Rightarrow> log_msg ERROR (''Error processing queue: '' @ msg) w1
         | (Inr keys, w1) \<Rightarrow> process_keys p e keys w1))"

section \<open>The inbound endpoint\<close>

record request =
  pathname :: string
  http_method :: string
  body_json :: "string + json"

record reply =
  code :: nat
  payload :: json

definition ok_reply :: reply where
  "ok_reply = \<lparr>code = 200,
     payload = JObj [(''success'', JBool True), (''message'', JStr ''Turn data synced to Notion'')]\<rparr>"

definition queued_reply :: reply where
  "queued_reply = \<lparr>code = 202,
     payload = JObj [(''success'', JBool True),
                     (''message'', JStr ''Turn data queued due to rate limiting''),
                     (''queued'', JBool True)]\<rparr>"

definition invalid_reply :: reply where
  "invalid_reply = \<lparr>code = 400, payload = JObj [(''error'', JStr ''Invalid request body'')]\<rparr>"

definition error_reply :: "string \<Rightarrow> reply" where
  "error_reply msg = \<lparr>code = 500,
     payload = JObj [(''error'', JStr (if msg = [] then ''Internal server error'' else msg))]\<rparr>"

text \<open>The \<open>catch\<close> of \<open>handleTurnResolved\<close>.\<close>

definition handler_caught :: "string \<Rightarrow> world \<Rightarrow> reply \<times> world" where
  "handler_caught msg w = (error_reply msg, log_msg ERROR (''Error handling turn-resolved: '' @ msg) w)"

text \<open>
  \<open>ctx.waitUntil(processQueue(env))\<close> hands the sweep to the runtime, which runs it
  detached from the reply: the handler only counts it, \<open>settle\<close> runs it.
\<close>

definition waitUntil :: "world \<Rightarrow> world" where
  "waitUntil w = w\<lparr>waiting := Suc (waiting w)\<rparr>"

definition handleTurnResolved :: "platform \<Rightarrow> env \<Rightarrow> request \<Rightarrow> world \<Rightarrow> reply \<times> world" where
  "handleTurnResolved p e rq w =
     (case body_json rq of
        Inl msg \<Rightarrow> handler_caught msg w
      | Inr turnData \<Rightarrow>
          if \<not> truthy turnData \<or> \<not> typeof_object turnData then (invalid_reply, w)
          else
            (case writeToNotion p e turnData w of
               (Delivered pageId, w1) \<Rightarrow> (ok_reply, w1)
             | (RateLimited retryAfter, w1) \<Rightarrow> (queued_reply, waitUntil (queueInKV p e turnData w1))
             | (Failed err, w1) \<Rightarrow>
                 handler_caught (if err = [] then ''Failed to write to Notion'' else err) w1))"

definition not_found_reply :: reply where
  "not_found_reply = \<lparr>code = 404, payload = JStr ''Not Found''\<rparr>"

text \<open>The worker's \<open>fetch\<close> handler.\<close>

definition worker_fetch :: "platform \<Rightarrow> env \<Rightarrow> request \<Rightarrow> world \<Rightarrow> reply \<times> world" where
  "worker_fetch p e rq w =
     (if pathname rq = ''/turn-resolved'' \<and> http_method rq = ''POST'' then handleTurnResolved p e rq w
      else (not_found_reply, w))"

text \<open>The runtime running one sweep that was handed to it.\<close>

definition settle :: "platform \<Rightarrow> env \<Rightarrow> world \<Rightarrow> world" where
  "settle p e w = (if waiting w = 0 then w else processQueue p e (w\<lparr>waiting := waiting w - 1\<rparr>))"

section \<open>Example scenarios\<close>

text \<open>
  A configured worker, an empty world, a platform on which Notion always gives the same
  reply and the KV never throws, two turns, replies with a given status, a request, and
  worlds with one and two queued items. \<open>get_fails\<close> makes the first KV operation
  throw; \<open>limited_once\<close> answers the first outbound call with 429 and the later
  ones with 200; \<open>frozen\<close> is a platform whose clock stands still.
\<close>

definition env_ok :: env where
  "env_ok = \<lparr>NOTION_API_KEY = Some ''secret_token'', NOTION_DATABASE_ID = Some ''db1'', QUEUE_KV = True\<rparr>"

definition world0 :: world where
  "world0 = \<lparr>kv = [], kv_calls = [], fetch_calls = 0, clock_reads = 0, random_draws = 0,
     console = [], waiting = 0\<rparr>"

definition notion_always :: "fetch_result \<Rightarrow> platform" where
  "notion_always r = \<lparr>notion = (\<lambda>n rq. r), kv_fault = (\<lambda>n. None),
     date_now = (\<lambda>n. 1700000000000 + n), math_random = (\<lambda>n. ''k3j9x0abc'')\<rparr>"

definition turn1 :: json where
  "turn1 = JObj [(''name'', JStr ''Turn 42''), (''status'', JStr ''Completed'')]"

definition reply_with :: "nat \<Rightarrow> response" where
  "reply_with st = \<lparr>status = st, retry_after = Some ''30'', text_body = Inr ''upstream error'',
     json_body = Inr (JObj [(''id'', JStr ''page-1'')])\<rparr>"

definition turn2 :: json where
  "turn2 = JObj [(''name'', JStr ''Turn 43'')]"

definition request1 :: request where
  "request1 = \<lparr>pathname = ''/turn-resolved'', http_method = ''POST'', body_json = Inr turn1\<rparr>"

definition key1 :: string where
  "key1 = ''queue:1700000000000:k3j9x0abc''"

definition key2 :: string where
  "key2 = ''queue:1700000000500:zzz''"

definition item1 :: queued_item where
  "item1 = \<lparr>data = turn1, timestamp = 1700000000002, retries = Some 0\<rparr>"

definition world1 :: world where
  "world1 = world0\<lparr>kv := [(key1, item1, 86400)]\<rparr>"

definition world2 :: world where
  "world2 = world0\<lparr>kv := [(key1, item1, 86400), (key2, item1\<lparr>retries := Some 2\<rparr>, 86400)]\<rparr>"

definition get_fails :: "platform \<Rightarrow> platform" where
  "get_fails p = p\<lparr>kv_fault := (\<lambda>n. if n = 0 then Some ''KV unavailable'' else None)\<rparr>"

definition limited_once :: platform where
  "limited_once = (notion_always (Resolved (reply_with 200)))
     \<lparr>notion := (\<lambda>n rq. if n = 0 then Resolved (reply_with 429) else Resolved (reply_with 200))\<rparr>"

definition frozen :: platform where
  "frozen = (notion_always (Resolved (reply_with 429)))\<lparr>date_now := (\<lambda>n. 1700000000000)\<rparr>"

section \<open>Evaluating the scenarios\<close>

lemma digit_chars:
  "digit_char 0 = CHR ''0''" "digit_char 1 = CHR ''1''" "digit_char (Suc 0) = CHR ''1''"
  "digit_char 2 = CHR ''2''"
  "digit_char 3 = CHR ''3''" "digit_char 4 = CHR ''4''" "digit_char 5 = CHR ''5''"
  "digit_char 6 = CHR ''6''" "digit_char 7 = CHR ''7''" "digit_char 8 = CHR ''8''"
  "digit_char 9 = CHR ''9''"
  by (simp_all add: digit_char_def char_of_def bit_0)

lemma show_nat_500: "show_nat 500 = ''500''"
  by (simp add: show_nat.simps digit_chars)

lemma show_nat_now: "show_nat 1700000000000 = ''1700000000000''"
  by (simp add: show_nat.simps digit_chars)

lemma show_nat_now1: "show_nat 1700000000001 = ''1700000000001''"
  by (simp add: show_nat.simps digit_chars)

lemma show_nat_now2: "show_nat 1700000000002 = ''1700000000002''"
  by (simp add: show_nat.simps digit_chars)

lemmas run_defs = process_item_def item_attempt_def item_settle_def kv_get_def kv_delete_def kv_put_def kv_list_def kv_tick_def item_caught_def
  log_msg_def writeToNotion_def build_request_def title_of_def optional_prop_def Date_now_def
  Math_random_def fetch_def classify_def ok_def write_caught_def retry_or_drop_def retry_count_def
  processQueue_def queueInKV_def queue_key_def handleTurnResolved_def handler_caught_def waitUntil_def
  env_ok_def world0_def world1_def world2_def notion_always_def get_fails_def reply_with_def
  turn1_def turn2_def item1_def key1_def key2_def request1_def frozen_def
  ok_reply_def queued_reply_def error_reply_def invalid_reply_def Let_def

lemma notion_always_sel [simp]:
  "kv_fault (notion_always r) n = None" "notion (notion_always r) n rq = r"
  "date_now (notion_always r) n = 1700000000000 + n" "math_random (notion_always r) n = ''k3j9x0abc''"
  by (simp_all add: notion_always_def)

lemma world0_sel [simp]:
  "kv world0 = []" "kv_calls world0 = []" "fetch_calls world0 = 0" "console world0 = []"
  "clock_reads world0 = 0" "random_draws world0 = 0" "waiting world0 = 0"
  by (simp_all add: world0_def)

lemma world1_sel [simp]:
  "kv world1 = [(key1, item1, 86400)]" "kv_calls world1 = []" "fetch_calls world1 = 0"
  "console world1 = []"
  by (simp_all add: world1_def world0_def)

lemma item1_sel [simp]: "data item1 = turn1" "retries item1 = Some 0" "timestamp item1 = 1700000000002"
  by (simp_all add: item1_def)

lemma key1_prefix [simp]: "prefix ''queue:'' key1"
  by (simp add: key1_def)

section \<open>Frame lemmas\<close>

lemma log_msg_sel [simp]:
  "kv (log_msg l s w) = kv w" "kv_calls (log_msg l s w) = kv_calls w"
  "fetch_calls (log_msg l s w) = fetch_calls w" "clock_reads (log_msg l s w) = clock_reads w"
  "random_draws (log_msg l s w) = random_draws w" "waiting (log_msg l s w) = waiting w"
  "console (log_msg l s w) = console w @ [(l, s)]"
  by (simp_all add: log_msg_def)

lemma write_caught_simps [simp]:
  "fst (write_caught msg w) = Failed msg"
  "snd (write_caught msg w) = log_msg ERROR (''Error writing to Notion: '' @ msg) w"
  by (simp_all add: write_caught_def)

lemma title_of_frame [simp]:
  "kv (snd (title_of p d w)) = kv w" "kv_calls (snd (title_of p d w)) = kv_calls w"
  "fetch_calls (snd (title_of p d w)) = fetch_calls w" "waiting (snd (title_of p d w)) = waiting w"
  "random_draws (snd (title_of p d w)) = random_draws w"
  by (simp_all add: title_of_def Date_now_def split: option.splits)

lemma build_request_frame [simp]:
  "kv (snd (build_request p e d w)) = kv w" "kv_calls (snd (build_request p e d w)) = kv_calls w"
  "fetch_calls (snd (build_request p e d w)) = fetch_calls w"
  "waiting (snd (build_request p e d w)) = waiting w"
  "random_draws (snd (build_request p e d w)) = random_draws w"
  by (simp_all add: build_request_def Date_now_def case_prod_beta)

lemma classify_frame [simp]:
  "kv (snd (classify r w)) = kv w" "kv_calls (snd (classify r w)) = kv_calls w"
  "fetch_calls (snd (classify r w)) = fetch_calls w" "waiting (snd (classify r w)) = waiting w"
  "random_draws (snd (classify r w)) = random_draws w"
  "clock_reads (snd (classify r w)) = clock_reads w"
  by (simp_all add: classify_def split: sum.splits)

lemma writeToNotion_frame [simp]:
  "kv (snd (writeToNotion p e d w)) = kv w" "kv_calls (snd (writeToNotion p e d w)) = kv_calls w"
  "waiting (snd (writeToNotion p e d w)) = waiting w"
  "random_draws (snd (writeToNotion p e d w)) = random_draws w"
  by (simp_all add: writeToNotion_def fetch_def case_prod_beta split: fetch_result.splits)

lemma kv_tick_sel [simp]:
  "kv (kv_tick c w) = kv w" "kv_calls (kv_tick c w) = kv_calls w @ [c]"
  "fetch_calls (kv_tick c w) = fetch_calls w" "clock_reads (kv_tick c w) = clock_reads w"
  "random_draws (kv_tick c w) = random_draws w" "waiting (kv_tick c w) = waiting w"
  "console (kv_tick c w) = console w"
  by (simp_all add: kv_tick_def)

lemma waitUntil_sel [simp]:
  "kv (waitUntil w) = kv w" "kv_calls (waitUntil w) = kv_calls w"
  "fetch_calls (waitUntil w) = fetch_calls w" "waiting (waitUntil w) = Suc (waiting w)"
  by (simp_all add: waitUntil_def)

lemma kv_put_calls [simp]:
  "kv_calls (snd (kv_put p k v t w)) = kv_calls w @ [KV_put k v t]"
  "fetch_calls (snd (kv_put p k v t w)) = fetch_calls w"
  "waiting (snd (kv_put p k v t w)) = waiting w"
  by (simp_all add: kv_put_def split: option.splits)

lemma kv_put_store:
  "kv (snd (kv_put p k v t w)) =
     (if kv_fault p (length (kv_calls w)) = None then AList.update k (v, t) (kv w) else kv w)"
  by (simp add: kv_put_def split: option.splits)

lemma kv_delete_calls [simp]:
  "kv_calls (snd (kv_delete p k w)) = kv_calls w @ [KV_delete k]"
  "fetch_calls (snd (kv_delete p k w)) = fetch_calls w"
  "waiting (snd (kv_delete p k w)) = waiting w"
  by (simp_all add: kv_delete_def split: option.splits)

lemma kv_delete_store:
  "kv (snd (kv_delete p k w)) =
     (if kv_fault p (length (kv_calls w)) = None then AList.delete k (kv w) else kv w)"
  by (simp add: kv_delete_def split: option.splits)

lemma handler_caught_sel [simp]:
  "fst (handler_caught msg w) = error_reply msg"
  "snd (handler_caught msg w) = log_msg ERROR (''Error handling turn-resolved: '' @ msg) w"
  by (simp_all add: handler_caught_def)

lemma item_caught_sel [simp]:
  "kv (item_caught k m w) = kv w" "kv_calls (item_caught k m w) = kv_calls w"
  "fetch_calls (item_caught k m w) = fetch_calls w"
  "console (item_caught k m w) = console w @ [(ERROR, ''Error processing queue item '' @ k @ '': '' @ m)]"
  by (simp_all add: item_caught_def)

section \<open>Delivery attempt\<close>

lemma writeToNotion_sent:
  assumes "\<not> missing (NOTION_API_KEY e)" "\<not> missing (NOTION_DATABASE_ID e)" "turnData \<noteq> JNull"
  shows "fst (writeToNotion p e turnData w) =
     (case notion p (fetch_calls w) (fst (build_request p e turnData w)) of
        Rejected msg \<Rightarrow> Failed msg
      | Resolved r \<Rightarrow>
          fst (classify r (snd (fetch p (fst (build_request p e turnData w))
                                        (snd (build_request p e turnData w))))))"
  using assms by (simp add: writeToNotion_def fetch_def case_prod_beta split: fetch_result.splits)

lemma classify_result:
  "fst (classify r w) =
     (if status r = 429 then RateLimited (retry_after r)
      else if \<not> (200 \<le> status r \<and> status r \<le> 299) then
        (case text_body r of Inl msg \<Rightarrow> Failed msg
         | Inr t \<Rightarrow> Failed (''Notion API error: '' @ show_nat (status r)))
      else (case json_body r of Inl msg \<Rightarrow> Failed msg
         | Inr v \<Rightarrow> if v = JNull then Failed (TypeError_null ''id'') else Delivered (get_prop v ''id'')))"
  by (simp add: classify_def ok_def split: sum.splits)

lemma writeToNotion_console:
  "\<exists>logged. console (snd (writeToNotion p e d w)) = console w @ logged"
  by (auto simp: writeToNotion_def fetch_def build_request_def title_of_def Date_now_def classify_def
      write_caught_def case_prod_beta split: fetch_result.splits option.splits sum.splits)

lemma always_limited:
  "fst (writeToNotion (notion_always (Resolved (reply_with 429))) env_ok turn1 w) = RateLimited (Some ''30'')"
  by (simp add: writeToNotion_sent classify_result env_ok_def turn1_def notion_always_def reply_with_def)

lemma always_failed:
  "fst (writeToNotion (notion_always (Resolved (reply_with 500))) env_ok turn1 w) = Failed ''Notion API error: 500''"
  by (simp add: writeToNotion_sent classify_result env_ok_def turn1_def notion_always_def reply_with_def show_nat_500)

lemma always_delivered:
  "fst (writeToNotion (notion_always (Resolved (reply_with 200))) env_ok turn1 w) = Delivered (Some (JStr ''page-1''))"
  by (simp add: writeToNotion_sent classify_result env_ok_def turn1_def notion_always_def reply_with_def)

text \<open>
  C3, as amended. With both credentials set and an event to send, the outcome of a delivery
  attempt is fixed by what the outbound call gives back. A rejected call gives Failed with
  the exception's message. Status 429 gives RateLimited with the Retry-After header. Any
  other status outside 200..299 gives Failed with the reason "Notion API error: " followed
  by the status code when the body text can be read, and Failed with the message of the
  exception when reading it throws. A status in 200..299 gives Delivered with the id
  property of the body when the body parses to a value other than \<open>null\<close>; when
  parsing throws it gives Failed with the message of that exception, and when the body is
  \<open>null\<close> it gives Failed with the message of the TypeError raised by reading its id.
\<close>

theorem writeToNotion_classifies:
  assumes "\<not> missing (NOTION_API_KEY e)" and "\<not> missing (NOTION_DATABASE_ID e)"
    and "turnData \<noteq> JNull"
  shows "(\<forall>msg. notion p (fetch_calls w) (fst (build_request p e turnData w)) = Rejected msg
            \<longrightarrow> fst (writeToNotion p e turnData w) = Failed msg)
       \<and> (\<forall>r. notion p (fetch_calls w) (fst (build_request p e turnData w)) = Resolved r \<longrightarrow>
            (status r = 429 \<longrightarrow> fst (writeToNotion p e turnData w) = RateLimited (retry_after r))
          \<and> (status r \<noteq> 429 \<and> \<not> (200 \<le> status r \<and> status r \<le> 299) \<longrightarrow>
               (\<forall>t. text_body r = Inr t \<longrightarrow>
                  fst (writeToNotion p e turnData w) = Failed (''Notion API error: '' @ show_nat (status r)))
             \<and> (\<forall>msg. text_body r = Inl msg \<longrightarrow> fst (writeToNotion p e turnData w) = Failed msg))
          \<and> (200 \<le> status r \<and> status r \<le> 299 \<longrightarrow>
               (\<forall>v. json_body r = Inr v \<and> v \<noteq> JNull \<longrightarrow>
                  fst (writeToNotion p e turnData w) = Delivered (get_prop v ''id''))
             \<and> (json_body r = Inr JNull \<longrightarrow>
                  fst (writeToNotion p e turnData w) = Failed (TypeError_null ''id''))
             \<and> (\<forall>msg. json_body r = Inl msg \<longrightarrow> fst (writeToNotion p e turnData w) = Failed msg)))"
  using assms by (auto simp: writeToNotion_sent classify_result)

theorem writeToNotion_classifies_witness:
  "\<not> missing (NOTION_API_KEY env_ok) \<and> \<not> missing (NOTION_DATABASE_ID env_ok) \<and> turn1 \<noteq> JNull
   \<and> fst (writeToNotion (notion_always (Rejected ''network down'')) env_ok turn1 world0)
       = Failed ''network down''
   \<and> fst (writeToNotion (notion_always (Resolved (reply_with 429))) env_ok turn1 world0)
       = RateLimited (Some ''30'')
   \<and> fst (writeToNotion (notion_always (Resolved (reply_with 500))) env_ok turn1 world0)
       = Failed ''Notion API error: 500''
   \<and> fst (writeToNotion (notion_always (Resolved (reply_with 200))) env_ok turn1 world0)
       = Delivered (Some (JStr ''page-1''))
   \<and> fst (writeToNotion (notion_always (Resolved ((reply_with 200)\<lparr>json_body := Inl ''Unexpected token''\<rparr>)))
            env_ok turn1 world0)
       = Failed ''Unexpected token''
   \<and> fst (writeToNotion (notion_always (Resolved ((reply_with 201)\<lparr>json_body := Inr JNull\<rparr>)))
            env_ok turn1 world0)
       = Failed (TypeError_null ''id'')
   \<and> fst (writeToNotion (notion_always (Resolved ((reply_with 503)\<lparr>text_body := Inl ''body stream lost''\<rparr>)))
            env_ok turn1 world0)
       = Failed ''body stream lost''"
  using writeToNotion_classifies [of env_ok turn1 "notion_always (Rejected ''network down'')" world0]
    writeToNotion_classifies [of env_ok turn1 "notion_always (Resolved (reply_with 429))" world0]
    writeToNotion_classifies [of env_ok turn1 "notion_always (Resolved (reply_with 500))" world0]
    writeToNotion_classifies [of env_ok turn1 "notion_always (Resolved (reply_with 200))" world0]
    writeToNotion_classifies [of env_ok turn1
      "notion_always (Resolved ((reply_with 200)\<lparr>json_body := Inl ''Unexpected token''\<rparr>))" world0]
    writeToNotion_classifies [of env_ok turn1
      "notion_always (Resolved ((reply_with 201)\<lparr>json_body := Inr JNull\<rparr>))" world0]
    writeToNotion_classifies [of env_ok turn1
      "notion_always (Resolved ((reply_with 503)\<lparr>text_body := Inl ''body stream lost''\<rparr>))" world0]
  by (simp add: env_ok_def turn1_def notion_always_def reply_with_def show_nat_500)

text \<open>
  C3, as stated, fails: a reply with status 204, whose empty body does not parse, and a
  reply with status 200 whose body is \<open>null\<close> are both classified Failed, not
  Delivered; and a reply with status 503 whose body cannot be read is Failed with a
  reason that does not include the status code.
\<close>

theorem success_status_not_delivered:
  "status ((reply_with 204)\<lparr>json_body := Inl ''Unexpected end of JSON input''\<rparr>) = 204
   \<and> fst (writeToNotion
        (notion_always (Resolved ((reply_with 204)\<lparr>json_body := Inl ''Unexpected end of JSON input''\<rparr>)))
        env_ok turn1 world0)
       = Failed ''Unexpected end of JSON input''
   \<and> status ((reply_with 200)\<lparr>json_body := Inr JNull\<rparr>) = 200
   \<and> fst (writeToNotion (notion_always (Resolved ((reply_with 200)\<lparr>json_body := Inr JNull\<rparr>)))
        env_ok turn1 world0)
       = Failed (TypeError_null ''id'')
   \<and> status ((reply_with 503)\<lparr>text_body := Inl ''body stream lost''\<rparr>) = 503
   \<and> fst (writeToNotion (notion_always (Resolved ((reply_with 503)\<lparr>text_body := Inl ''body stream lost''\<rparr>)))
        env_ok turn1 world0)
       = Failed ''body stream lost''"
  by (simp add: run_defs)

text \<open>
  C4. When either credential is missing, the delivery attempt is Failed with the reason
  "Notion API credentials not configured" and the count of outbound calls is unchanged.
\<close>

theorem missing_credentials_no_call:
  assumes "missing (NOTION_API_KEY e) \<or> missing (NOTION_DATABASE_ID e)"
  shows "fst (writeToNotion p e turnData w) = Failed ''Notion API credentials not configured''
       \<and> fetch_calls (snd (writeToNotion p e turnData w)) = fetch_calls w"
  using assms by (simp add: writeToNotion_def)

theorem missing_credentials_no_call_witness:
  "missing (NOTION_API_KEY (env_ok\<lparr>NOTION_API_KEY := None\<rparr>))
   \<and> fst (writeToNotion (notion_always (Resolved (reply_with 200))) (env_ok\<lparr>NOTION_API_KEY := None\<rparr>) turn1 world0)
       = Failed ''Notion API credentials not configured''
   \<and> fetch_calls (snd (writeToNotion (notion_always (Resolved (reply_with 200)))
                          (env_ok\<lparr>NOTION_API_KEY := None\<rparr>) turn1 world0)) = 0"
  using missing_credentials_no_call [of "env_ok\<lparr>NOTION_API_KEY := None\<rparr>"
      "notion_always (Resolved (reply_with 200))" turn1 world0]
  by (simp add: world0_def)

section \<open>The inbound endpoint\<close>

lemma queueInKV_unbound:
  "\<not> QUEUE_KV e \<Longrightarrow> queueInKV p e d w = log_msg WARN ''KV namespace not configured, skipping queue'' w"
  by (simp add: queueInKV_def)

lemma queueInKV_calls:
  "kv_calls (queueInKV p e d w) =
     (if QUEUE_KV e
      then kv_calls w @ [KV_put (queue_key (date_now p (clock_reads w)) (math_random p (random_draws w)))
                           \<lparr>data = d, timestamp = date_now p (Suc (clock_reads w)), retries = Some 0\<rparr> 86400]
      else kv_calls w)"
  by (simp add: queueInKV_def Date_now_def Math_random_def kv_put_def split: option.splits)

lemma queueInKV_store:
  "kv (queueInKV p e d w) =
     (if QUEUE_KV e \<and> kv_fault p (length (kv_calls w)) = None
      then AList.update (queue_key (date_now p (clock_reads w)) (math_random p (random_draws w)))
             (\<lparr>data = d, timestamp = date_now p (Suc (clock_reads w)), retries = Some 0\<rparr>, 86400) (kv w)
      else kv w)"
  by (simp add: queueInKV_def Date_now_def Math_random_def kv_put_def split: option.splits)

lemma queueInKV_frame [simp]:
  "fetch_calls (queueInKV p e d w) = fetch_calls w" "waiting (queueInKV p e d w) = waiting w"
  by (simp_all add: queueInKV_def Date_now_def Math_random_def kv_put_def split: option.splits)

lemma queueInKV_counters:
  "QUEUE_KV e \<Longrightarrow> clock_reads (queueInKV p e d w) = clock_reads w + 2"
  "QUEUE_KV e \<Longrightarrow> random_draws (queueInKV p e d w) = Suc (random_draws w)"
  by (simp_all add: queueInKV_def Date_now_def Math_random_def kv_put_def kv_tick_def split: option.splits)

lemma handle_valid:
  assumes "body_json rq = Inr turnData" "truthy turnData" "typeof_object turnData"
  shows "handleTurnResolved p e rq w =
     (case fst (writeToNotion p e turnData w) of
        Delivered pageId \<Rightarrow> (ok_reply, snd (writeToNotion p e turnData w))
      | RateLimited retryAfter \<Rightarrow>
          (queued_reply, waitUntil (queueInKV p e turnData (snd (writeToNotion p e turnData w))))
      | Failed err \<Rightarrow>
          handler_caught (if err = [] then ''Failed to write to Notion'' else err)
            (snd (writeToNotion p e turnData w)))"
  using assms by (simp add: handleTurnResolved_def case_prod_beta split: notion_result.splits)

text \<open>
  What the validation of \<open>handleTurnResolved\<close> does reject: a request whose body does
  not parse goes to the generic catch and gets the error reply carrying the parser's
  message; a body that parses to \<open>null\<close>, a boolean, a number or a string gets the
  "Invalid request body" reply. In both cases the store is left as it was, no KV
  operation and no outbound call is issued, and no sweep is scheduled.
\<close>

lemma primitive_or_unparsable_rejected:
  assumes "\<And>fs. body_json rq \<noteq> Inr (JObj fs)" and "\<And>xs. body_json rq \<noteq> Inr (JArr xs)"
  shows "(\<forall>msg. body_json rq = Inl msg \<longrightarrow> fst (handleTurnResolved p e rq w) = error_reply msg)
       \<and> (\<forall>v. body_json rq = Inr v \<longrightarrow> fst (handleTurnResolved p e rq w) = invalid_reply)
       \<and> kv (snd (handleTurnResolved p e rq w)) = kv w
       \<and> kv_calls (snd (handleTurnResolved p e rq w)) = kv_calls w
       \<and> fetch_calls (snd (handleTurnResolved p e rq w)) = fetch_calls w
       \<and> waiting (snd (handleTurnResolved p e rq w)) = waiting w"
proof (cases "body_json rq")
  case (Inl msg)
  then show ?thesis by (simp add: handleTurnResolved_def)
next
  case (Inr v)
  with assms have "\<not> truthy v \<or> \<not> typeof_object v" by (cases v) auto
  with Inr show ?thesis by (auto simp: handleTurnResolved_def)
qed

text \<open>
  C7. The validation misses arrays: a body that parses to a JSON array is truthy and of
  \<open>typeof\<close> \<open>'object'\<close>, so it is not rejected. With Notion answering 429, the
  empty array is sent out as an event, the caller gets the "queued" reply and the array
  is persisted in the queue with \<open>retries = 0\<close>. An unparsable body, for its part, is
  answered with status 500 by the generic catch and never reaches the 400 reply.
\<close>

theorem array_payload_is_queued:
  "truthy (JArr []) \<and> typeof_object (JArr [])
   \<and> fst (handleTurnResolved (notion_always (Resolved (reply_with 429))) env_ok
            (request1\<lparr>body_json := Inr (JArr [])\<rparr>) world0) = queued_reply
   \<and> fetch_calls (snd (handleTurnResolved (notion_always (Resolved (reply_with 429))) env_ok
            (request1\<lparr>body_json := Inr (JArr [])\<rparr>) world0)) = 1
   \<and> kv (snd (handleTurnResolved (notion_always (Resolved (reply_with 429))) env_ok
            (request1\<lparr>body_json := Inr (JArr [])\<rparr>) world0)) =
        [(''queue:1700000000002:k3j9x0abc'', \<lparr>data = JArr [], timestamp = 1700000000003, retries = Some 0\<rparr>, 86400)]
   \<and> code (fst (handleTurnResolved (notion_always (Resolved (reply_with 429))) env_ok
            (request1\<lparr>body_json := Inl ''Unexpected token i in JSON''\<rparr>) world0)) = 500"
  by (simp add: run_defs show_nat_now2)

theorem array_payload_is_queued_witness:
  "map (\<lambda>(k, v, t). (data v, retries v, t))
     (kv (snd (handleTurnResolved (notion_always (Resolved (reply_with 429))) env_ok
            (request1\<lparr>body_json := Inr (JArr [])\<rparr>) world0))) = [(JArr [], Some 0, 86400)]
   \<and> kv world0 = []"
  using array_payload_is_queued by simp

text \<open>
  C2, as amended. For a request carrying an event, the outcome of the initial delivery
  attempt selects the continuation. Delivered: the caller gets the success reply and no
  KV operation is issued. RateLimited: the caller gets the "queued" reply; when the KV
  namespace is bound, exactly one put is issued, of a record wrapping the event with
  \<open>retries = 0\<close> and a TTL of 86400 seconds, and the record is in the store under
  its key when that put does not throw, while the store is left as it was when it does;
  when the KV namespace is not bound, no KV operation is issued and the store is left as
  it was. Failed: the caller gets the error reply carrying the reason, and no KV operation
  is issued.
\<close>

theorem initial_attempt_continuations:
  assumes "body_json rq = Inr turnData" and "truthy turnData" and "typeof_object turnData"
  shows "(\<forall>pageId. fst (writeToNotion p e turnData w) = Delivered pageId \<longrightarrow>
            fst (handleTurnResolved p e rq w) = ok_reply
          \<and> kv (snd (handleTurnResolved p e rq w)) = kv w
          \<and> kv_calls (snd (handleTurnResolved p e rq w)) = kv_calls w)
       \<and> (\<forall>retryAfter. fst (writeToNotion p e turnData w) = RateLimited retryAfter \<longrightarrow>
            fst (handleTurnResolved p e rq w) = queued_reply
          \<and> (QUEUE_KV e \<longrightarrow>
               kv_calls (snd (handleTurnResolved p e rq w)) =
                 kv_calls w @ [KV_put (queue_key (date_now p (clock_reads (snd (writeToNotion p e turnData w))))
                                                 (math_random p (random_draws w)))
                                 \<lparr>data = turnData,
                                  timestamp = date_now p (Suc (clock_reads (snd (writeToNotion p e turnData w)))),
                                  retries = Some 0\<rparr> 86400])
          \<and> (QUEUE_KV e \<and> kv_fault p (length (kv_calls w)) = None \<longrightarrow>
               kv (snd (handleTurnResolved p e rq w)) =
                 AList.update (queue_key (date_now p (clock_reads (snd (writeToNotion p e turnData w))))
                                         (math_random p (random_draws w)))
                   (\<lparr>data = turnData,
                     timestamp = date_now p (Suc (clock_reads (snd (writeToNotion p e turnData w)))),
                     retries = Some 0\<rparr>, 86400) (kv w))
          \<and> (QUEUE_KV e \<and> kv_fault p (length (kv_calls w)) \<noteq> None \<longrightarrow>
               kv (snd (handleTurnResolved p e rq w)) = kv w)
          \<and> (\<not> QUEUE_KV e \<longrightarrow>
               kv_calls (snd (handleTurnResolved p e rq w)) = kv_calls w
             \<and> kv (snd (handleTurnResolved p e rq w)) = kv w))
       \<and> (\<forall>err. fst (writeToNotion p e turnData w) = Failed err \<longrightarrow>
            fst (handleTurnResolved p e rq w) = error_reply (if err = [] then ''Failed to write to Notion'' else err)
          \<and> kv (snd (handleTurnResolved p e rq w)) = kv w
          \<and> kv_calls (snd (handleTurnResolved p e rq w)) = kv_calls w)"
proof -
  note run = handle_valid [OF assms, of p e w]
  show ?thesis
  proof (cases "fst (writeToNotion p e turnData w)")
    case (Delivered pageId)
    with run show ?thesis by simp
  next
    case (RateLimited retryAfter)
    with run show ?thesis by (simp add: queueInKV_calls queueInKV_store)
  next
    case (Failed err)
    with run show ?thesis by simp
  qed
qed

theorem initial_attempt_continuations_witness:
  "body_json request1 = Inr turn1 \<and> truthy turn1 \<and> typeof_object turn1 \<and> QUEUE_KV env_ok
   \<and> fst (handleTurnResolved (notion_always (Resolved (reply_with 200))) env_ok request1 world0) = ok_reply
   \<and> kv (snd (handleTurnResolved (notion_always (Resolved (reply_with 200))) env_ok request1 world0)) = []
   \<and> fst (handleTurnResolved (notion_always (Resolved (reply_with 429))) env_ok request1 world0) = queued_reply
   \<and> kv (snd (handleTurnResolved (notion_always (Resolved (reply_with 429))) env_ok request1 world0)) =
        [(''queue:1700000000001:k3j9x0abc'', \<lparr>data = turn1, timestamp = 1700000000002, retries = Some 0\<rparr>, 86400)]
   \<and> fst (handleTurnResolved (notion_always (Resolved (reply_with 500))) env_ok request1 world0)
        = error_reply ''Notion API error: 500''
   \<and> kv (snd (handleTurnResolved (notion_always (Resolved (reply_with 500))) env_ok request1 world0)) = []
   \<and> \<not> QUEUE_KV (env_ok\<lparr>QUEUE_KV := False\<rparr>)
   \<and> kv_calls (snd (handleTurnResolved (notion_always (Resolved (reply_with 429)))
                      (env_ok\<lparr>QUEUE_KV := False\<rparr>) request1 world1)) = []
   \<and> kv (snd (handleTurnResolved (notion_always (Resolved (reply_with 429)))
                (env_ok\<lparr>QUEUE_KV := False\<rparr>) request1 world1)) = [(key1, item1, 86400)]
   \<and> kv_fault (get_fails (notion_always (Resolved (reply_with 429)))) (length (kv_calls world1)) \<noteq> None
   \<and> kv (snd (handleTurnResolved (get_fails (notion_always (Resolved (reply_with 429)))) env_ok request1 world1))
        = [(key1, item1, 86400)]"
  using initial_attempt_continuations [of request1 turn1 "notion_always (Resolved (reply_with 200))" env_ok world0]
    initial_attempt_continuations [of request1 turn1 "notion_always (Resolved (reply_with 429))" env_ok world0]
    initial_attempt_continuations [of request1 turn1 "notion_always (Resolved (reply_with 500))" env_ok world0]
    initial_attempt_continuations [of request1 turn1 "notion_always (Resolved (reply_with 429))"
      "env_ok\<lparr>QUEUE_KV := False\<rparr>" world1]
    initial_attempt_continuations [of request1 turn1 "get_fails (notion_always (Resolved (reply_with 429)))"
      env_ok world1]
  by (simp add: run_defs show_nat_500 show_nat_now1)

text \<open>
  C2, as stated, fails when the KV namespace is not bound: the attempt is rate limited,
  the caller gets the "queued" reply, and nothing is persisted or even put.
\<close>

theorem unbound_queue_persists_nothing:
  "fst (handleTurnResolved (notion_always (Resolved (reply_with 429))) (env_ok\<lparr>QUEUE_KV := False\<rparr>) request1 world0)
     = queued_reply
   \<and> kv (snd (handleTurnResolved (notion_always (Resolved (reply_with 429))) (env_ok\<lparr>QUEUE_KV := False\<rparr>) request1 world0)) = []
   \<and> kv_calls (snd (handleTurnResolved (notion_always (Resolved (reply_with 429))) (env_ok\<lparr>QUEUE_KV := False\<rparr>) request1 world0)) = []"
  by (simp add: run_defs)

text \<open>
  C9. When the initial attempt is rate limited and either the KV namespace is not bound
  or the put of the enqueue throws, the enqueue leaves the store as it was and the caller
  still gets the "queued" reply: the same reply as in any other run whose attempt was
  rate limited, whether or not the event was persisted there.
\<close>

theorem enqueue_failure_is_silent:
  assumes "body_json rq = Inr turnData" and "truthy turnData" and "typeof_object turnData"
    and "fst (writeToNotion p e turnData w) = RateLimited retryAfter"
    and "\<not> QUEUE_KV e \<or> kv_fault p (length (kv_calls w)) \<noteq> None"
  shows "kv (queueInKV p e turnData (snd (writeToNotion p e turnData w))) = kv w
       \<and> kv (snd (handleTurnResolved p e rq w)) = kv w
       \<and> fst (handleTurnResolved p e rq w) = queued_reply
       \<and> (\<forall>p' e' w' retryAfter'. fst (writeToNotion p' e' turnData w') = RateLimited retryAfter' \<longrightarrow>
             fst (handleTurnResolved p' e' rq w') = fst (handleTurnResolved p e rq w))"
  using assms(4,5) by (auto simp: handle_valid [OF assms(1-3)] queueInKV_store)

theorem enqueue_failure_is_silent_witness:
  "fst (writeToNotion (notion_always (Resolved (reply_with 429))) (env_ok\<lparr>QUEUE_KV := False\<rparr>) turn1 world0)
      = RateLimited (Some ''30'')
   \<and> \<not> QUEUE_KV (env_ok\<lparr>QUEUE_KV := False\<rparr>)
   \<and> kv (snd (handleTurnResolved (notion_always (Resolved (reply_with 429))) (env_ok\<lparr>QUEUE_KV := False\<rparr>) request1 world0)) = []
   \<and> fst (handleTurnResolved (notion_always (Resolved (reply_with 429))) (env_ok\<lparr>QUEUE_KV := False\<rparr>) request1 world0)
      = queued_reply
   \<and> kv_fault (get_fails (notion_always (Resolved (reply_with 429)))) (length (kv_calls world0)) \<noteq> None
   \<and> kv (snd (handleTurnResolved (get_fails (notion_always (Resolved (reply_with 429)))) env_ok request1 world0)) = []
   \<and> fst (handleTurnResolved (get_fails (notion_always (Resolved (reply_with 429)))) env_ok request1 world0)
      = fst (handleTurnResolved (notion_always (Resolved (reply_with 429))) env_ok request1 world0)"
  using enqueue_failure_is_silent [of request1 turn1 "notion_always (Resolved (reply_with 429))"
      "env_ok\<lparr>QUEUE_KV := False\<rparr>" world0 "Some ''30''"]
    enqueue_failure_is_silent [of request1 turn1 "get_fails (notion_always (Resolved (reply_with 429)))"
      env_ok world0 "Some ''30''"]
  by (simp add: run_defs)

section \<open>The sweep\<close>

lemma retry_or_drop_calls:
  "kv_calls (retry_or_drop p key item c g w) =
     kv_calls w @ [if retry_count item + 1 < c
                   then KV_put key (item\<lparr>retries := Some (retry_count item + 1)\<rparr>) 86400
                   else KV_delete key]"
  by (simp add: retry_or_drop_def Let_def case_prod_beta split: sum.splits)

lemma retry_or_drop_store:
  "kv (retry_or_drop p key item c g w) =
     (if kv_fault p (length (kv_calls w)) \<noteq> None then kv w
      else if retry_count item + 1 < c
      then AList.update key (item\<lparr>retries := Some (retry_count item + 1)\<rparr>, 86400) (kv w)
      else AList.delete key (kv w))"
  by (auto simp: retry_or_drop_def Let_def kv_put_def kv_delete_def split: option.splits)

lemma retry_or_drop_fetch [simp]:
  "fetch_calls (retry_or_drop p key item c g w) = fetch_calls w"
  by (auto simp: retry_or_drop_def Let_def kv_put_def kv_delete_def split: option.splits)

lemma retry_or_drop_console:
  "kv_fault p (length (kv_calls w)) = Some m \<Longrightarrow>
   console (retry_or_drop p key item c g w) =
     console w @ [(ERROR, ''Error processing queue item '' @ key @ '': '' @ m)]"
  by (auto simp: retry_or_drop_def Let_def kv_put_def kv_delete_def split: option.splits)

lemma process_item_get_throws:
  "kv_fault p (length (kv_calls w)) = Some m \<Longrightarrow>
   process_item p e key w = item_caught key m (kv_tick (KV_get key) w)"
  by (simp add: process_item_def item_attempt_def kv_get_def)

lemma process_item_absent:
  "kv_fault p (length (kv_calls w)) = None \<Longrightarrow> map_of (kv w) key = None \<Longrightarrow>
   process_item p e key w = kv_tick (KV_get key) w"
  by (simp add: process_item_def item_attempt_def kv_get_def)

lemma process_item_present:
  assumes "kv_fault p (length (kv_calls w)) = None" "map_of (kv w) key = Some (item, ttl)"
  shows "process_item p e key w =
     (case fst (writeToNotion p e (data item) (kv_tick (KV_get key) w)) of
        Delivered pageId \<Rightarrow>
          (case kv_delete p key (snd (writeToNotion p e (data item) (kv_tick (KV_get key) w))) of
             (Inl msg, w3) \<Rightarrow> item_caught key msg w3
           | (Inr u, w3) \<Rightarrow> log_msg LOG (''Successfully processed queued item: '' @ key) w3)
      | RateLimited retryAfter \<Rightarrow>
          retry_or_drop p key item 5 ''Max retries reached for queued item: ''
            (snd (writeToNotion p e (data item) (kv_tick (KV_get key) w)))
      | Failed err \<Rightarrow>
          retry_or_drop p key item 3 ''Failed to process queued item after retries: ''
            (snd (writeToNotion p e (data item) (kv_tick (KV_get key) w))))"
  using assms
  by (simp add: process_item_def item_attempt_def item_settle_def kv_get_def case_prod_beta
      split: notion_result.splits)

lemma process_item_delivered_store:
  assumes "kv_fault p (length (kv_calls w)) = None" "map_of (kv w) key = Some (item, ttl)"
    "fst (writeToNotion p e (data item) (kv_tick (KV_get key) w)) = Delivered pg"
  shows "kv (process_item p e key w) =
     (if kv_fault p (Suc (length (kv_calls w))) = None then AList.delete key (kv w) else kv w)"
    "kv_calls (process_item p e key w) = kv_calls w @ [KV_get key, KV_delete key]"
  using assms(3)
  by (auto simp: process_item_present [OF assms(1,2)] kv_delete_def split: option.splits)

lemma process_item_failed_store:
  assumes "kv_fault p (length (kv_calls w)) = None" "map_of (kv w) key = Some (item, ttl)"
    "fst (writeToNotion p e (data item) (kv_tick (KV_get key) w)) = Failed err"
  shows "kv (process_item p e key w) =
     (if kv_fault p (Suc (length (kv_calls w))) \<noteq> None then kv w
      else if retry_count item + 1 < 3
      then AList.update key (item\<lparr>retries := Some (retry_count item + 1)\<rparr>, 86400) (kv w)
      else AList.delete key (kv w))"
    "kv_calls (process_item p e key w) =
       kv_calls w @ [KV_get key, if retry_count item + 1 < 3
                   then KV_put key (item\<lparr>retries := Some (retry_count item + 1)\<rparr>) 86400
                   else KV_delete key]"
  using assms(3)
  by (simp_all add: process_item_present [OF assms(1,2)] retry_or_drop_store retry_or_drop_calls)

lemma process_item_limited_store:
  assumes "kv_fault p (length (kv_calls w)) = None" "map_of (kv w) key = Some (item, ttl)"
    "fst (writeToNotion p e (data item) (kv_tick (KV_get key) w)) = RateLimited ra"
  shows "kv (process_item p e key w) =
     (if kv_fault p (Suc (length (kv_calls w))) \<noteq> None then kv w
      else if retry_count item + 1 < 5
      then AList.update key (item\<lparr>retries := Some (retry_count item + 1)\<rparr>, 86400) (kv w)
      else AList.delete key (kv w))"
    "kv_calls (process_item p e key w) =
       kv_calls w @ [KV_get key, if retry_count item + 1 < 5
                   then KV_put key (item\<lparr>retries := Some (retry_count item + 1)\<rparr>) 86400
                   else KV_delete key]"
  using assms(3)
  by (simp_all add: process_item_present [OF assms(1,2)] retry_or_drop_store retry_or_drop_calls)

lemma process_item_second_throws:
  assumes "kv_fault p (length (kv_calls w)) = None" "map_of (kv w) key = Some (item, ttl)"
    and "kv_fault p (Suc (length (kv_calls w))) = Some msg"
  shows "kv (process_item p e key w) = kv w"
    "console (process_item p e key w) =
       console (snd (writeToNotion p e (data item) (kv_tick (KV_get key) w)))
       @ [(ERROR, ''Error processing queue item '' @ key @ '': '' @ msg)]"
  using assms(3)
  by (cases "fst (writeToNotion p e (data item) (kv_tick (KV_get key) w))";
      simp add: process_item_present [OF assms(1,2)] retry_or_drop_store retry_or_drop_console
        kv_delete_def)+

lemma item_settle_calls:
  "kv_calls (item_settle p key item result w) = kv_calls w @ [KV_delete key]
   \<or> kv_calls (item_settle p key item result w) =
       kv_calls w @ [KV_put key (item\<lparr>retries := Some (retry_count item + 1)\<rparr>) 86400]"
  by (cases result)
     (simp_all add: item_settle_def retry_or_drop_calls kv_delete_def split: option.splits)

text \<open>What one item of the sweep can do to the store and which KV operations it issues.\<close>

lemma process_item_store_cases:
  "kv (process_item p e key w) = kv w
   \<or> kv (process_item p e key w) = AList.delete key (kv w)
   \<or> (\<exists>item ttl. map_of (kv w) key = Some (item, ttl)
        \<and> kv (process_item p e key w) =
            AList.update key (item\<lparr>retries := Some (retry_count item + 1)\<rparr>, 86400) (kv w))"
proof (cases "kv_fault p (length (kv_calls w))")
  case (Some m)
  then show ?thesis by (simp add: process_item_get_throws)
next
  case None
  show ?thesis
  proof (cases "map_of (kv w) key")
    case absent: None
    with None show ?thesis by (simp add: process_item_absent)
  next
    case (Some entry)
    obtain item ttl where entry: "entry = (item, ttl)" by (cases entry)
    with Some have present: "map_of (kv w) key = Some (item, ttl)" by simp
    show ?thesis
    proof (cases "fst (writeToNotion p e (data item) (kv_tick (KV_get key) w))")
      case (Delivered pg)
      from process_item_delivered_store(1) [OF None present Delivered] show ?thesis
        by (auto split: if_splits)
    next
      case (RateLimited ra)
      from process_item_limited_store(1) [OF None present RateLimited] present show ?thesis
        by (auto split: if_splits)
    next
      case (Failed err)
      from process_item_failed_store(1) [OF None present Failed] present show ?thesis
        by (auto split: if_splits)
    qed
  qed
qed

lemma process_item_calls_cases:
  "kv_calls (process_item p e key w) = kv_calls w @ [KV_get key]
   \<or> kv_calls (process_item p e key w) = kv_calls w @ [KV_get key, KV_delete key]
   \<or> (\<exists>item ttl. map_of (kv w) key = Some (item, ttl)
        \<and> kv_calls (process_item p e key w) =
            kv_calls w @ [KV_get key, KV_put key (item\<lparr>retries := Some (retry_count item + 1)\<rparr>) 86400])"
proof (cases "kv_fault p (length (kv_calls w))")
  case (Some m)
  then show ?thesis by (simp add: process_item_get_throws)
next
  case None
  show ?thesis
  proof (cases "map_of (kv w) key")
    case absent: None
    with None show ?thesis by (simp add: process_item_absent)
  next
    case (Some entry)
    obtain item ttl where entry: "entry = (item, ttl)" by (cases entry)
    with Some have present: "map_of (kv w) key = Some (item, ttl)" by simp
    show ?thesis
    proof (cases "fst (writeToNotion p e (data item) (kv_tick (KV_get key) w))")
      case (Delivered pg)
      from process_item_delivered_store(2) [OF None present Delivered] show ?thesis by simp
    next
      case (RateLimited ra)
      from process_item_limited_store(2) [OF None present RateLimited] present show ?thesis
        by (auto split: if_splits)
    next
      case (Failed err)
      from process_item_failed_store(2) [OF None present Failed] present show ?thesis
        by (auto split: if_splits)
    qed
  qed
qed

lemma process_item_entry_cases:
  assumes "map_of (kv w) key = Some (item, ttl)"
  shows "map_of (kv (process_item p e key w)) key = Some (item, ttl)
       \<or> map_of (kv (process_item p e key w)) key = None
       \<or> map_of (kv (process_item p e key w)) key =
            Some (item\<lparr>retries := Some (retry_count item + 1)\<rparr>, 86400)"
  using process_item_store_cases [of p e key w] assms
  by (auto simp: update_conv' delete_conv')

lemma process_item_absent_quiet:
  assumes "map_of (kv w) key = None"
  shows "kv (process_item p e key w) = kv w" "fetch_calls (process_item p e key w) = fetch_calls w"
    "kv_calls (process_item p e key w) = kv_calls w @ [KV_get key]"
  using assms
  by (cases "kv_fault p (length (kv_calls w))";
      simp add: process_item_get_throws process_item_absent)+

lemma process_item_other:
  assumes "k \<noteq> key"
  shows "map_of (kv (process_item p e k w)) key = map_of (kv w) key"
  using process_item_store_cases [of p e k w] assms
  by (auto simp: update_conv' delete_conv')

lemma process_item_absent_stays:
  assumes "map_of (kv w) key = None"
  shows "map_of (kv (process_item p e k w)) key = None"
  using process_item_store_cases [of p e k w] assms
  by (auto simp: update_conv' delete_conv')

lemma process_keys_absent_stays:
  "map_of (kv w) key = None \<Longrightarrow> map_of (kv (process_keys p e keys w)) key = None"
  by (induction keys arbitrary: w) (simp_all add: process_item_absent_stays)

lemma process_keys_other:
  "key \<notin> set keys \<Longrightarrow> map_of (kv (process_keys p e keys w)) key = map_of (kv w) key"
  by (induction keys arbitrary: w) (auto simp: process_item_other)

lemma process_item_distinct:
  "distinct (map fst (kv w)) \<Longrightarrow> distinct (map fst (kv (process_item p e k w)))"
  using process_item_store_cases [of p e k w]
  by (auto simp: distinct_update distinct_delete)

lemma process_keys_distinct:
  "distinct (map fst (kv w)) \<Longrightarrow> distinct (map fst (kv (process_keys p e keys w)))"
  by (induction keys arbitrary: w) (simp_all add: process_item_distinct)

lemma processQueue_listed:
  assumes "QUEUE_KV e" "kv_fault p (length (kv_calls w)) = None"
  shows "processQueue p e w =
     process_keys p e (filter (prefix ''queue:'') (map fst (kv w))) (kv_tick (KV_list ''queue:'') w)"
  using assms by (simp add: processQueue_def kv_list_def)

lemma processQueue_store_cases:
  "kv (processQueue p e w) = kv w
   \<or> processQueue p e w =
       process_keys p e (filter (prefix ''queue:'') (map fst (kv w))) (kv_tick (KV_list ''queue:'') w)"
  by (auto simp: processQueue_def kv_list_def split: option.splits)

lemma processQueue_absent_stays:
  assumes "map_of (kv w) key = None"
  shows "map_of (kv (processQueue p e w)) key = None"
  using processQueue_store_cases [of p e w] assms
  by (auto simp: process_keys_absent_stays)

lemma sweeps_absent_stay:
  "map_of (kv w) key = None \<Longrightarrow> map_of (kv ((processQueue p e ^^ n) w)) key = None"
  by (induction n) (simp_all add: processQueue_absent_stays)

lemma processQueue_distinct:
  "distinct (map fst (kv w)) \<Longrightarrow> distinct (map fst (kv (processQueue p e w)))"
  using processQueue_store_cases [of p e w]
  by (auto simp: process_keys_distinct)

lemma process_keys_at:
  assumes step: "\<And>w. map_of (kv w) key = Some ent \<Longrightarrow> map_of (kv (process_item p e key w)) key = R"
  shows "distinct keys \<Longrightarrow> key \<in> set keys \<Longrightarrow> map_of (kv w) key = Some ent \<Longrightarrow>
         map_of (kv (process_keys p e keys w)) key = R"
proof (induction keys arbitrary: w)
  case Nil
  then show ?case by simp
next
  case (Cons k ks)
  show ?case
  proof (cases "k = key")
    case True
    with Cons.prems have "key \<notin> set ks" by simp
    then have "map_of (kv (process_keys p e ks (process_item p e key w))) key =
               map_of (kv (process_item p e key w)) key"
      by (rule process_keys_other)
    with True step [OF Cons.prems(3)] show ?thesis by simp
  next
    case False
    with Cons.prems have "distinct ks" "key \<in> set ks" by auto
    moreover from False Cons.prems(3) have "map_of (kv (process_item p e k w)) key = Some ent"
      by (simp add: process_item_other)
    ultimately show ?thesis using Cons.IH by simp
  qed
qed

lemma processQueue_at:
  assumes step: "\<And>w. map_of (kv w) key = Some ent \<Longrightarrow> map_of (kv (process_item p e key w)) key = R"
    and "QUEUE_KV e" "kv_fault p (length (kv_calls w)) = None"
    and "distinct (map fst (kv w))" "prefix ''queue:'' key" "map_of (kv w) key = Some ent"
  shows "map_of (kv (processQueue p e w)) key = R"
proof -
  from assms(6) have "key \<in> fst ` set (kv w)" by (metis map_of_eq_None_iff option.distinct(1))
  with assms(5) have "key \<in> set (filter (prefix ''queue:'') (map fst (kv w)))" by auto
  moreover from assms(4) have "distinct (filter (prefix ''queue:'') (map fst (kv w)))" by simp
  ultimately show ?thesis
    using process_keys_at [where keys = "filter (prefix ''queue:'') (map fst (kv w))"
        and w = "kv_tick (KV_list ''queue:'') w" and p = p and e = e and key = key and ent = ent and R = R] step assms(6)
    by (simp add: processQueue_listed [OF assms(2,3)])
qed

lemma item_step_ceiling:
  assumes "\<forall>n. kv_fault p n = None" "map_of (kv w) key = Some (item, ttl)"
    and "fst (writeToNotion p e (data item) (kv_tick (KV_get key) w)) = RateLimited ra \<and> c = 5
       \<or> fst (writeToNotion p e (data item) (kv_tick (KV_get key) w)) = Failed err \<and> c = 3"
  shows "map_of (kv (process_item p e key w)) key =
     (if retry_count item + 1 < c then Some (item\<lparr>retries := Some (retry_count item + 1)\<rparr>, 86400) else None)"
proof -
  have g: "kv_fault p (length (kv_calls w)) = None" using assms(1) by simp
  from assms(3) show ?thesis
  proof
    assume a: "fst (writeToNotion p e (data item) (kv_tick (KV_get key) w)) = RateLimited ra \<and> c = 5"
    then show ?thesis
      using process_item_limited_store(1) [OF g assms(2), of e ra] assms(1)
      by (simp add: update_conv' delete_conv')
  next
    assume a: "fst (writeToNotion p e (data item) (kv_tick (KV_get key) w)) = Failed err \<and> c = 3"
    then show ?thesis
      using process_item_failed_store(1) [OF g assms(2), of e err] assms(1)
      by (simp add: update_conv' delete_conv')
  qed
qed

lemma retry_count_update [simp]: "retry_count (item\<lparr>retries := Some n\<rparr>) = n"
  by (simp add: retry_count_def)

lemma sweeps_count_up:
  assumes nofault: "\<forall>n. kv_fault p n = None" and bound: "QUEUE_KV e" and pre: "prefix ''queue:'' key"
    and out: "(\<forall>w'. \<exists>ra. fst (writeToNotion p e (data item) w') = RateLimited ra) \<and> c = 5
            \<or> (\<forall>w'. \<exists>err. fst (writeToNotion p e (data item) w') = Failed err) \<and> c = 3"
    and start: "distinct (map fst (kv w))" "map_of (kv w) key = Some (item, 86400)" "retries item = Some 0"
  shows "distinct (map fst (kv ((processQueue p e ^^ n) w)))
       \<and> map_of (kv ((processQueue p e ^^ n) w)) key =
           (if n < c then Some (item\<lparr>retries := Some n\<rparr>, 86400) else None)"
proof (induction n)
  case 0
  from out have "0 < c" by auto
  moreover from start(3) have "item\<lparr>retries := Some 0\<rparr> = item" by simp
  ultimately show ?case using start by simp
next
  case (Suc n)
  let ?W = "(processQueue p e ^^ n) w"
  from Suc have dist: "distinct (map fst (kv ?W))" by simp
  then have dist': "distinct (map fst (kv (processQueue p e ?W)))" by (rule processQueue_distinct)
  show ?case
  proof (cases "n < c")
    case True
    let ?it = "item\<lparr>retries := Some n\<rparr>"
    from Suc True have ent: "map_of (kv ?W) key = Some (?it, 86400)" by simp
    have step: "map_of (kv (process_item p e key w')) key =
        (if n + 1 < c then Some (item\<lparr>retries := Some (n + 1)\<rparr>, 86400) else None)"
      if "map_of (kv w') key = Some (?it, 86400)" for w'
    proof -
      from out obtain ra err where
        "fst (writeToNotion p e (data ?it) (kv_tick (KV_get key) w')) = RateLimited ra \<and> c = 5
         \<or> fst (writeToNotion p e (data ?it) (kv_tick (KV_get key) w')) = Failed err \<and> c = 3"
        by (metis queued_item.select_convs(1) queued_item.surjective queued_item.update_convs(3))
      from item_step_ceiling [OF nofault that this] show ?thesis by simp
    qed
    have "map_of (kv (processQueue p e ?W)) key =
        (if n + 1 < c then Some (item\<lparr>retries := Some (n + 1)\<rparr>, 86400) else None)"
      using nofault by (intro processQueue_at [OF step bound _ dist pre ent]) simp_all
    with dist' show ?thesis by simp
  next
    case False
    with Suc have "map_of (kv ?W) key = None" by simp
    then have "map_of (kv (processQueue p e ?W)) key = None" by (rule processQueue_absent_stays)
    with dist' False show ?thesis by simp
  qed
qed

text \<open>
  C1. Take a queued item that the sweep reads under its key. If its re-attempt is
  RateLimited, the sweep issues, after the get, a put of the item with \<open>retries\<close>
  incremented and a TTL of 86400 seconds when the new count is below 5, a delete otherwise;
  when that operation does not throw, the store holds the incremented item, or no longer
  holds the key. If the re-attempt is Failed, the same with 3 in place of 5. Over repeated
  sweeps of a store whose operations do not throw, an item enqueued with \<open>retries = 0\<close>
  whose attempts are all RateLimited is present with \<open>retries = n\<close> after n sweeps for
  every n below 5 and absent from the fifth sweep on; when its attempts are all Failed, the
  same with 3.
\<close>

theorem sweep_retry_ceilings:
  assumes "map_of (kv w) key = Some (item, ttl)" and "kv_fault p (length (kv_calls w)) = None"
  shows "(\<forall>ra. fst (writeToNotion p e (data item) (kv_tick (KV_get key) w)) = RateLimited ra \<longrightarrow>
            kv_calls (process_item p e key w) =
              kv_calls w @ [KV_get key,
                            if retry_count item + 1 < 5
                            then KV_put key (item\<lparr>retries := Some (retry_count item + 1)\<rparr>) 86400
                            else KV_delete key]
          \<and> (kv_fault p (Suc (length (kv_calls w))) = None \<longrightarrow>
               map_of (kv (process_item p e key w)) =
                 (if retry_count item + 1 < 5
                  then (map_of (kv w))(key \<mapsto> (item\<lparr>retries := Some (retry_count item + 1)\<rparr>, 86400))
                  else (map_of (kv w))(key := None))))
       \<and> (\<forall>err. fst (writeToNotion p e (data item) (kv_tick (KV_get key) w)) = Failed err \<longrightarrow>
            kv_calls (process_item p e key w) =
              kv_calls w @ [KV_get key,
                            if retry_count item + 1 < 3
                            then KV_put key (item\<lparr>retries := Some (retry_count item + 1)\<rparr>) 86400
                            else KV_delete key]
          \<and> (kv_fault p (Suc (length (kv_calls w))) = None \<longrightarrow>
               map_of (kv (process_item p e key w)) =
                 (if retry_count item + 1 < 3
                  then (map_of (kv w))(key \<mapsto> (item\<lparr>retries := Some (retry_count item + 1)\<rparr>, 86400))
                  else (map_of (kv w))(key := None))))
       \<and> (QUEUE_KV e \<and> (\<forall>n. kv_fault p n = None) \<and> prefix ''queue:'' key \<and> distinct (map fst (kv w))
            \<and> ttl = 86400 \<and> retries item = Some 0 \<longrightarrow>
            ((\<forall>w'. \<exists>ra. fst (writeToNotion p e (data item) w') = RateLimited ra) \<longrightarrow>
               (\<forall>n. map_of (kv ((processQueue p e ^^ n) w)) key =
                      (if n < 5 then Some (item\<lparr>retries := Some n\<rparr>, 86400) else None)))
          \<and> ((\<forall>w'. \<exists>err. fst (writeToNotion p e (data item) w') = Failed err) \<longrightarrow>
               (\<forall>n. map_of (kv ((processQueue p e ^^ n) w)) key =
                      (if n < 3 then Some (item\<lparr>retries := Some n\<rparr>, 86400) else None))))"
proof (intro conjI allI impI)
  fix ra
  assume a: "fst (writeToNotion p e (data item) (kv_tick (KV_get key) w)) = RateLimited ra"
  from process_item_limited_store(2) [OF assms(2,1) a]
  show "kv_calls (process_item p e key w) =
          kv_calls w @ [KV_get key,
                        if retry_count item + 1 < 5
                        then KV_put key (item\<lparr>retries := Some (retry_count item + 1)\<rparr>) 86400
                        else KV_delete key]" .
  assume "kv_fault p (Suc (length (kv_calls w))) = None"
  with process_item_limited_store(1) [OF assms(2,1) a]
  show "map_of (kv (process_item p e key w)) =
          (if retry_count item + 1 < 5
           then (map_of (kv w))(key \<mapsto> (item\<lparr>retries := Some (retry_count item + 1)\<rparr>, 86400))
           else (map_of (kv w))(key := None))"
    by (simp add: update_conv' delete_conv')
next
  fix err
  assume a: "fst (writeToNotion p e (data item) (kv_tick (KV_get key) w)) = Failed err"
  from process_item_failed_store(2) [OF assms(2,1) a]
  show "kv_calls (process_item p e key w) =
          kv_calls w @ [KV_get key,
                        if retry_count item + 1 < 3
                        then KV_put key (item\<lparr>retries := Some (retry_count item + 1)\<rparr>) 86400
                        else KV_delete key]" .
  assume "kv_fault p (Suc (length (kv_calls w))) = None"
  with process_item_failed_store(1) [OF assms(2,1) a]
  show "map_of (kv (process_item p e key w)) =
          (if retry_count item + 1 < 3
           then (map_of (kv w))(key \<mapsto> (item\<lparr>retries := Some (retry_count item + 1)\<rparr>, 86400))
           else (map_of (kv w))(key := None))"
    by (simp add: update_conv' delete_conv')
next
  fix n
  assume h: "QUEUE_KV e \<and> (\<forall>n. kv_fault p n = None) \<and> prefix ''queue:'' key \<and> distinct (map fst (kv w))
            \<and> ttl = 86400 \<and> retries item = Some 0"
    and o: "\<forall>w'. \<exists>ra. fst (writeToNotion p e (data item) w') = RateLimited ra"
  from h assms(1) have "map_of (kv w) key = Some (item, 86400)" by simp
  with h o sweeps_count_up [of p e key item 5 w n]
  show "map_of (kv ((processQueue p e ^^ n) w)) key =
          (if n < 5 then Some (item\<lparr>retries := Some n\<rparr>, 86400) else None)"
    by simp
next
  fix n
  assume h: "QUEUE_KV e \<and> (\<forall>n. kv_fault p n = None) \<and> prefix ''queue:'' key \<and> distinct (map fst (kv w))
            \<and> ttl = 86400 \<and> retries item = Some 0"
    and o: "\<forall>w'. \<exists>err. fst (writeToNotion p e (data item) w') = Failed err"
  from h assms(1) have "map_of (kv w) key = Some (item, 86400)" by simp
  with h o sweeps_count_up [of p e key item 3 w n]
  show "map_of (kv ((processQueue p e ^^ n) w)) key =
          (if n < 3 then Some (item\<lparr>retries := Some n\<rparr>, 86400) else None)"
    by simp
qed

theorem sweep_retry_ceilings_witness:
  "map_of (kv world1) key1 = Some (item1, 86400)
   \<and> map_of (kv (process_item (notion_always (Resolved (reply_with 429))) env_ok key1 world1)) key1
       = Some (item1\<lparr>retries := Some 1\<rparr>, 86400)
   \<and> map_of (kv ((processQueue (notion_always (Resolved (reply_with 429))) env_ok ^^ 4) world1)) key1
       = Some (item1\<lparr>retries := Some 4\<rparr>, 86400)
   \<and> map_of (kv ((processQueue (notion_always (Resolved (reply_with 429))) env_ok ^^ 5) world1)) key1 = None
   \<and> map_of (kv ((processQueue (notion_always (Resolved (reply_with 500))) env_ok ^^ 2) world1)) key1
       = Some (item1\<lparr>retries := Some 2\<rparr>, 86400)
   \<and> map_of (kv ((processQueue (notion_always (Resolved (reply_with 500))) env_ok ^^ 3) world1)) key1 = None"
proof -
  have present: "map_of (kv world1) key1 = Some (item1, 86400)" by simp
  have bound: "QUEUE_KV env_ok" by (simp add: env_ok_def)
  note lim = sweep_retry_ceilings [of world1 key1 item1 86400 "notion_always (Resolved (reply_with 429))" env_ok]
  note fail = sweep_retry_ceilings [of world1 key1 item1 86400 "notion_always (Resolved (reply_with 500))" env_ok]
  from lim have "map_of (kv (process_item (notion_always (Resolved (reply_with 429))) env_ok key1 world1)) key1
       = Some (item1\<lparr>retries := Some 1\<rparr>, 86400)"
    by (simp add: always_limited retry_count_def)
  moreover from lim bound have "\<forall>n. map_of (kv ((processQueue (notion_always (Resolved (reply_with 429))) env_ok ^^ n) world1)) key1 =
       (if n < 5 then Some (item1\<lparr>retries := Some n\<rparr>, 86400) else None)"
    by (simp add: always_limited)
  moreover from fail bound have "\<forall>n. map_of (kv ((processQueue (notion_always (Resolved (reply_with 500))) env_ok ^^ n) world1)) key1 =
       (if n < 3 then Some (item1\<lparr>retries := Some n\<rparr>, 86400) else None)"
    by (simp add: always_failed)
  ultimately show ?thesis using present by simp
qed

text \<open>
  C5. When a KV operation throws while the sweep processes one item (the get, or the put
  or delete that follows the re-attempt of an item that was read), the store is left as
  it was, so the item keeps its last persisted state, the error is logged for that key,
  and the loop goes on with the remaining keys.
\<close>

theorem sweep_isolates_item_exception:
  assumes "kv_fault p (length (kv_calls w)) = Some msg
         \<or> kv_fault p (length (kv_calls w)) = None \<and> map_of (kv w) key \<noteq> None
           \<and> kv_fault p (Suc (length (kv_calls w))) = Some msg"
  shows "kv (process_item p e key w) = kv w
       \<and> (\<exists>logged. console (process_item p e key w) =
             console w @ logged @ [(ERROR, ''Error processing queue item '' @ key @ '': '' @ msg)])
       \<and> process_keys p e (key # keys) w = process_keys p e keys (process_item p e key w)
       \<and> kv (process_keys p e [key] w) = kv w"
  using assms
proof
  assume "kv_fault p (length (kv_calls w)) = Some msg"
  then show ?thesis by (simp add: process_item_get_throws)
next
  assume a: "kv_fault p (length (kv_calls w)) = None \<and> map_of (kv w) key \<noteq> None
           \<and> kv_fault p (Suc (length (kv_calls w))) = Some msg"
  then obtain item ttl where present: "map_of (kv w) key = Some (item, ttl)" by auto
  from a have g: "kv_fault p (length (kv_calls w)) = None"
    and t: "kv_fault p (Suc (length (kv_calls w))) = Some msg" by simp_all
  obtain logged where "console (snd (writeToNotion p e (data item) (kv_tick (KV_get key) w))) = console w @ logged"
    using writeToNotion_console [of p e "data item" "kv_tick (KV_get key) w"] by auto
  with process_item_second_throws [OF g present t, of e] show ?thesis by simp
qed

theorem sweep_isolates_item_exception_witness:
  "kv_fault (get_fails (notion_always (Resolved (reply_with 200)))) (length (kv_calls world2)) = Some ''KV unavailable''
   \<and> kv (process_item (get_fails (notion_always (Resolved (reply_with 200)))) env_ok key1 world2) = kv world2
   \<and> console (process_item (get_fails (notion_always (Resolved (reply_with 200)))) env_ok key1 world2)
       = [(ERROR, ''Error processing queue item queue:1700000000000:k3j9x0abc: KV unavailable'')]
   \<and> kv (process_keys (get_fails (notion_always (Resolved (reply_with 200)))) env_ok [key1, key2] world2)
       = [(key1, item1, 86400)]"
  using sweep_isolates_item_exception [of "get_fails (notion_always (Resolved (reply_with 200)))" world2
      "''KV unavailable''" key1 env_ok "[key2]"]
  by (simp add: run_defs)

text \<open>
  C6, as amended. When the two parts of the loop body run back to back, processing an
  item never lowers its retry count: an item still present afterwards has a count at
  least as large, and exactly one larger when the re-attempt failed (RateLimited or
  Failed) and no KV operation threw. Deletion is then final: for a key that is not in the
  store, the sweep issues the get and nothing else (no delivery attempt, no put), and the
  key is still absent after any list of keys is processed and after any number of
  sweeps run one after another.
\<close>

theorem retries_increase_and_delete_is_terminal:
  "(\<forall>item ttl item' ttl'.
      map_of (kv w) key = Some (item, ttl) \<and> map_of (kv (process_item p e key w)) key = Some (item', ttl') \<longrightarrow>
        retry_count item \<le> retry_count item'
      \<and> (kv_fault p (length (kv_calls w)) = None \<and> kv_fault p (Suc (length (kv_calls w))) = None
          \<and> (\<forall>pageId. fst (writeToNotion p e (data item) (kv_tick (KV_get key) w)) \<noteq> Delivered pageId) \<longrightarrow>
            retry_count item' = retry_count item + 1))
   \<and> (map_of (kv w) key = None \<longrightarrow>
        kv (process_item p e key w) = kv w
      \<and> fetch_calls (process_item p e key w) = fetch_calls w
      \<and> kv_calls (process_item p e key w) = kv_calls w @ [KV_get key]
      \<and> (\<forall>keys. map_of (kv (process_keys p e keys w)) key = None)
      \<and> (\<forall>n. map_of (kv ((processQueue p e ^^ n) w)) key = None))"
proof (intro conjI allI impI)
  fix item ttl item' ttl'
  assume a: "map_of (kv w) key = Some (item, ttl) \<and> map_of (kv (process_item p e key w)) key = Some (item', ttl')"
  then have present: "map_of (kv w) key = Some (item, ttl)" by simp
  from process_item_entry_cases [OF present, of p e] a
  show "retry_count item \<le> retry_count item'" by auto
  assume b: "kv_fault p (length (kv_calls w)) = None \<and> kv_fault p (Suc (length (kv_calls w))) = None
          \<and> (\<forall>pageId. fst (writeToNotion p e (data item) (kv_tick (KV_get key) w)) \<noteq> Delivered pageId)"
  then have g: "kv_fault p (length (kv_calls w)) = None" by simp
  show "retry_count item' = retry_count item + 1"
  proof (cases "fst (writeToNotion p e (data item) (kv_tick (KV_get key) w))")
    case (Delivered pg)
    with b show ?thesis by simp
  next
    case (RateLimited ra)
    from process_item_limited_store(1) [OF g present RateLimited] a b show ?thesis
      by (auto simp: update_conv' delete_conv' split: if_splits)
  next
    case (Failed err)
    from process_item_failed_store(1) [OF g present Failed] a b show ?thesis
      by (auto simp: update_conv' delete_conv' split: if_splits)
  qed
qed (simp_all add: process_item_absent_quiet process_keys_absent_stays sweeps_absent_stay)

theorem retries_increase_and_delete_is_terminal_witness:
  "map_of (kv world1) key1 = Some (item1, 86400)
   \<and> map_of (kv (process_item (notion_always (Resolved (reply_with 429))) env_ok key1 world1)) key1
       = Some (item1\<lparr>retries := Some 1\<rparr>, 86400)
   \<and> retry_count item1 = 0 \<and> retry_count (item1\<lparr>retries := Some 1\<rparr>) = 1
   \<and> map_of (kv world1) key2 = None
   \<and> kv (process_item (notion_always (Resolved (reply_with 429))) env_ok key2 world1) = kv world1
   \<and> fetch_calls (process_item (notion_always (Resolved (reply_with 429))) env_ok key2 world1) = 0
   \<and> map_of (kv (process_keys (notion_always (Resolved (reply_with 429))) env_ok [key2, key2] world1)) key2 = None"
  using retries_increase_and_delete_is_terminal [of world1 key1 "notion_always (Resolved (reply_with 429))" env_ok]
    retries_increase_and_delete_is_terminal [of world1 key2 "notion_always (Resolved (reply_with 429))" env_ok]
  by (simp add: run_defs)

text \<open>
  C6, as stated, fails when two sweeps overlap. The first sweep reads the item and its
  attempt is rate limited; before it writes back, the second sweep processes the same key,
  delivers the item and deletes it; the first sweep then puts the item back under its key
  with \<open>retries = 1\<close>, although it had been deleted. And when the second sweep is rate
  limited as well and has already put the item with \<open>retries = 1\<close>, the write-back of
  the first sweep leaves the stored count at 1.
\<close>

theorem interleaved_sweep_restores_deleted_item:
  "fst (item_attempt limited_once env_ok key1 world1) = Some (item1, RateLimited (Some ''30''))
   \<and> map_of (kv (process_item limited_once env_ok key1 (snd (item_attempt limited_once env_ok key1 world1)))) key1
       = None
   \<and> map_of (kv (item_settle limited_once key1 item1 (RateLimited (Some ''30''))
                   (process_item limited_once env_ok key1 (snd (item_attempt limited_once env_ok key1 world1))))) key1
       = Some (item1\<lparr>retries := Some 1\<rparr>, 86400)
   \<and> fst (item_attempt (notion_always (Resolved (reply_with 429))) env_ok key1 world1)
       = Some (item1, RateLimited (Some ''30''))
   \<and> map_of (kv (process_item (notion_always (Resolved (reply_with 429))) env_ok key1
                   (snd (item_attempt (notion_always (Resolved (reply_with 429))) env_ok key1 world1)))) key1
       = Some (item1\<lparr>retries := Some 1\<rparr>, 86400)
   \<and> map_of (kv (item_settle (notion_always (Resolved (reply_with 429))) key1 item1 (RateLimited (Some ''30''))
                   (process_item (notion_always (Resolved (reply_with 429))) env_ok key1
                      (snd (item_attempt (notion_always (Resolved (reply_with 429))) env_ok key1 world1))))) key1
       = Some (item1\<lparr>retries := Some 1\<rparr>, 86400)"
  by (simp add: run_defs limited_once_def)

lemma incremented_retries:
  assumes "v = it\<lparr>retries := Some (retry_count it + 1)\<rparr>"
  shows "it\<lparr>retries := retries v\<rparr> = v" "data v = data it" "timestamp v = timestamp it"
    "retries it = None \<longrightarrow> retries v = Some 1"
    "\<forall>n. retries it = Some n \<longrightarrow> retries v = Some (n + 1)"
  unfolding assms by (simp_all add: retry_count_def)

text \<open>
  C10. Every put issued while the sweep processes a queued item is under that item's key,
  with a TTL of 86400 seconds, of the item as it was read with only the \<open>retries\<close>
  field changed: a record without the field is written back with \<open>retries = 1\<close>, a
  record with \<open>retries = n\<close> with \<open>retries = n + 1\<close>, and the wrapped data and the
  enqueue timestamp are written back unchanged. This holds of the write-back part for
  any item and result it is given, and of the whole loop body for the item found in the
  store; accordingly an item still present afterwards is either untouched or differs from
  the one read in \<open>retries\<close> alone, by that increment.
\<close>

theorem requeue_changes_only_retries:
  assumes "map_of (kv w) key = Some (item, ttl)"
  shows "(\<forall>it result w' k v t.
            KV_put k v t \<in> set (drop (length (kv_calls w')) (kv_calls (item_settle p key it result w'))) \<longrightarrow>
            k = key \<and> t = 86400 \<and> it\<lparr>retries := retries v\<rparr> = v
          \<and> data v = data it \<and> timestamp v = timestamp it
          \<and> (retries it = None \<longrightarrow> retries v = Some 1)
          \<and> (\<forall>n. retries it = Some n \<longrightarrow> retries v = Some (n + 1)))
       \<and> (\<forall>k v t. KV_put k v t \<in> set (drop (length (kv_calls w)) (kv_calls (process_item p e key w))) \<longrightarrow>
            k = key \<and> t = 86400 \<and> item\<lparr>retries := retries v\<rparr> = v
          \<and> data v = data item \<and> timestamp v = timestamp item
          \<and> (retries item = None \<longrightarrow> retries v = Some 1)
          \<and> (\<forall>n. retries item = Some n \<longrightarrow> retries v = Some (n + 1)))
       \<and> (\<forall>item' ttl'. map_of (kv (process_item p e key w)) key = Some (item', ttl') \<longrightarrow>
            data item' = data item \<and> timestamp item' = timestamp item
          \<and> (item' = item \<and> ttl' = ttl
             \<or> ttl' = 86400 \<and> item\<lparr>retries := retries item'\<rparr> = item'
               \<and> (retries item = None \<longrightarrow> retries item' = Some 1)
               \<and> (\<forall>n. retries item = Some n \<longrightarrow> retries item' = Some (n + 1))))"
proof -
  have settle: "k = key \<and> t = 86400 \<and> it\<lparr>retries := retries v\<rparr> = v
          \<and> data v = data it \<and> timestamp v = timestamp it
          \<and> (retries it = None \<longrightarrow> retries v = Some 1)
          \<and> (\<forall>n. retries it = Some n \<longrightarrow> retries v = Some (n + 1))"
    if "KV_put k v t \<in> set (drop (length (kv_calls w')) (kv_calls (item_settle p key it result w')))"
    for it result w' k v t
  proof -
    from that item_settle_calls [of p key it result w']
    have "k = key" "t = 86400" and v: "v = it\<lparr>retries := Some (retry_count it + 1)\<rparr>" by auto
    with incremented_retries [OF v] show ?thesis by blast
  qed
  have whole: "k = key \<and> t = 86400 \<and> item\<lparr>retries := retries v\<rparr> = v
          \<and> data v = data item \<and> timestamp v = timestamp item
          \<and> (retries item = None \<longrightarrow> retries v = Some 1)
          \<and> (\<forall>n. retries item = Some n \<longrightarrow> retries v = Some (n + 1))"
    if "KV_put k v t \<in> set (drop (length (kv_calls w)) (kv_calls (process_item p e key w)))"
    for k v t
  proof -
    from that process_item_calls_cases [of p e key w] assms
    have "k = key" "t = 86400" and v: "v = item\<lparr>retries := Some (retry_count item + 1)\<rparr>" by auto
    with incremented_retries [OF v] show ?thesis by blast
  qed
  have after: "data item' = data item \<and> timestamp item' = timestamp item
          \<and> (item' = item \<and> ttl' = ttl
             \<or> ttl' = 86400 \<and> item\<lparr>retries := retries item'\<rparr> = item'
               \<and> (retries item = None \<longrightarrow> retries item' = Some 1)
               \<and> (\<forall>n. retries item = Some n \<longrightarrow> retries item' = Some (n + 1)))"
    if "map_of (kv (process_item p e key w)) key = Some (item', ttl')" for item' ttl'
  proof -
    from that process_item_entry_cases [OF assms, of p e]
    have "item' = item \<and> ttl' = ttl
         \<or> item' = item\<lparr>retries := Some (retry_count item + 1)\<rparr> \<and> ttl' = 86400"
      by auto
    then show ?thesis
    proof
      assume "item' = item \<and> ttl' = ttl"
      then show ?thesis by simp
    next
      assume a: "item' = item\<lparr>retries := Some (retry_count item + 1)\<rparr> \<and> ttl' = 86400"
      then have v: "item' = item\<lparr>retries := Some (retry_count item + 1)\<rparr>" by simp
      from a incremented_retries [OF v] show ?thesis by blast
    qed
  qed
  from settle whole after show ?thesis by blast
qed

theorem requeue_changes_only_retries_witness:
  "map_of (kv (world1\<lparr>kv := [(key1, item1\<lparr>retries := Some 3\<rparr>, 500)]\<rparr>)) key1 = Some (item1\<lparr>retries := Some 3\<rparr>, 500)
   \<and> kv_calls (process_item (notion_always (Resolved (reply_with 429))) env_ok key1
                 (world1\<lparr>kv := [(key1, item1\<lparr>retries := Some 3\<rparr>, 500)]\<rparr>))
       = [KV_get key1, KV_put key1 \<lparr>data = turn1, timestamp = 1700000000002, retries = Some 4\<rparr> 86400]
   \<and> map_of (kv (process_item (notion_always (Resolved (reply_with 429))) env_ok key1
                 (world1\<lparr>kv := [(key1, item1\<lparr>retries := Some 3\<rparr>, 500)]\<rparr>))) key1
       = Some (\<lparr>data = turn1, timestamp = 1700000000002, retries = Some 4\<rparr>, 86400)
   \<and> map_of (kv (world1\<lparr>kv := [(key1, item1\<lparr>retries := None\<rparr>, 500)]\<rparr>)) key1 = Some (item1\<lparr>retries := None\<rparr>, 500)
   \<and> kv_calls (process_item (notion_always (Resolved (reply_with 500))) env_ok key1
                 (world1\<lparr>kv := [(key1, item1\<lparr>retries := None\<rparr>, 500)]\<rparr>))
       = [KV_get key1, KV_put key1 \<lparr>data = turn1, timestamp = 1700000000002, retries = Some 1\<rparr> 86400]
   \<and> map_of (kv (process_item (notion_always (Resolved (reply_with 500))) env_ok key1
                 (world1\<lparr>kv := [(key1, item1\<lparr>retries := None\<rparr>, 500)]\<rparr>))) key1
       = Some (\<lparr>data = turn1, timestamp = 1700000000002, retries = Some 1\<rparr>, 86400)"
proof -
  let ?w3 = "world1\<lparr>kv := [(key1, item1\<lparr>retries := Some 3\<rparr>, 500)]\<rparr>"
  let ?w0 = "world1\<lparr>kv := [(key1, item1\<lparr>retries := None\<rparr>, 500)]\<rparr>"
  have present: "map_of (kv ?w3) key1 = Some (item1\<lparr>retries := Some 3\<rparr>, 500)"
    "map_of (kv ?w0) key1 = Some (item1\<lparr>retries := None\<rparr>, 500)"
    by simp_all
  have run: "kv_calls (process_item (notion_always (Resolved (reply_with 429))) env_ok key1 ?w3)
       = [KV_get key1, KV_put key1 \<lparr>data = turn1, timestamp = 1700000000002, retries = Some 4\<rparr> 86400]"
    "map_of (kv (process_item (notion_always (Resolved (reply_with 429))) env_ok key1 ?w3)) key1
       = Some (\<lparr>data = turn1, timestamp = 1700000000002, retries = Some 4\<rparr>, 86400)"
    "kv_calls (process_item (notion_always (Resolved (reply_with 500))) env_ok key1 ?w0)
       = [KV_get key1, KV_put key1 \<lparr>data = turn1, timestamp = 1700000000002, retries = Some 1\<rparr> 86400]"
    "map_of (kv (process_item (notion_always (Resolved (reply_with 500))) env_ok key1 ?w0)) key1
       = Some (\<lparr>data = turn1, timestamp = 1700000000002, retries = Some 1\<rparr>, 86400)"
    by (simp_all add: run_defs show_nat_500)
  from requeue_changes_only_retries [OF present(1), of "notion_always (Resolved (reply_with 429))" env_ok]
    requeue_changes_only_retries [OF present(2), of "notion_always (Resolved (reply_with 500))" env_ok]
  show ?thesis by (simp (no_asm) only: present run simp_thms)
qed

section \<open>Queue keys\<close>

lemma digit_char_inj:
  assumes "a < 10" "b < 10" "digit_char a = digit_char b"
  shows "a = b"
proof -
  from assms(3) have "of_char (char_of (48 + a) :: char) = (of_char (char_of (48 + b) :: char) :: nat)"
    by (simp add: digit_char_def)
  with assms(1,2) show ?thesis by simp
qed

lemma digit_char_not_colon:
  assumes "d < 10"
  shows "digit_char d \<noteq> CHR '':''"
proof
  assume "digit_char d = CHR '':''"
  then have "of_char (char_of (48 + d) :: char) = (of_char (CHR '':'') :: nat)"
    by (simp add: digit_char_def)
  with assms show False by simp
qed

lemma show_nat_nonempty: "show_nat n \<noteq> []"
  by (subst show_nat.simps) simp

lemma show_nat_no_colon: "CHR '':'' \<notin> set (show_nat n)"
proof (induction n rule: show_nat.induct)
  case (1 n)
  show ?case
  proof (cases "n < 10")
    case True
    then show ?thesis by (subst show_nat.simps) (simp add: digit_char_not_colon [symmetric])
  next
    case False
    with "1" have "CHR '':'' \<notin> set (show_nat (n div 10))" by simp
    moreover have "digit_char (n mod 10) \<noteq> CHR '':''" by (rule digit_char_not_colon) simp
    ultimately show ?thesis using False by (subst show_nat.simps) auto
  qed
qed

lemma show_nat_inj: "show_nat n = show_nat m \<Longrightarrow> n = m"
proof (induction n arbitrary: m rule: show_nat.induct)
  case (1 n)
  show ?case
  proof (cases "n < 10")
    case n: True
    show ?thesis
    proof (cases "m < 10")
      case True
      with n "1.prems" show ?thesis
        by (simp add: show_nat.simps [of n] show_nat.simps [of m] digit_char_inj)
    next
      case False
      with n "1.prems" show_nat_nonempty [of "m div 10"] show ?thesis
        by (auto simp: show_nat.simps [of n] show_nat.simps [of m])
    qed
  next
    case n: False
    show ?thesis
    proof (cases "m < 10")
      case True
      with n "1.prems" show_nat_nonempty [of "n div 10"] show ?thesis
        by (auto simp: show_nat.simps [of n] show_nat.simps [of m])
    next
      case False
      with n "1.prems" have "show_nat (n div 10) = show_nat (m div 10)"
        and d: "digit_char (n mod 10) = digit_char (m mod 10)"
        by (simp_all add: show_nat.simps [of n] show_nat.simps [of m])
      with n "1.IH" have "n div 10 = m div 10" by simp
      moreover from d have "n mod 10 = m mod 10" by (intro digit_char_inj) simp_all
      ultimately show ?thesis by (metis div_mult_mod_eq)
    qed
  qed
qed

lemma takeWhile_upto:
  "c \<notin> set a \<Longrightarrow> takeWhile (\<lambda>x. x \<noteq> c) (a @ c # r) = a"
  by (induction a) auto

lemma split_at_colon:
  assumes "CHR '':'' \<notin> set a" "CHR '':'' \<notin> set b" "a @ CHR '':'' # r = b @ CHR '':'' # r'"
  shows "a = b \<and> r = r'"
proof -
  from assms(1) have "takeWhile (\<lambda>c. c \<noteq> CHR '':'') (a @ CHR '':'' # r) = a"
    by (rule takeWhile_upto)
  moreover from assms(2) have "takeWhile (\<lambda>c. c \<noteq> CHR '':'') (b @ CHR '':'' # r') = b"
    by (rule takeWhile_upto)
  ultimately have "a = b" using assms(3) by simp
  with assms(3) show ?thesis by simp
qed

lemma queue_key_inj: "queue_key t r = queue_key t' r' \<longleftrightarrow> t = t' \<and> r = r'"
proof
  assume "queue_key t r = queue_key t' r'"
  then have "show_nat t @ CHR '':'' # r = show_nat t' @ CHR '':'' # r'"
    by (simp add: queue_key_def)
  from split_at_colon [OF show_nat_no_colon show_nat_no_colon this]
  show "t = t' \<and> r = r'" by (auto dest: show_nat_inj)
qed simp

text \<open>
  C8, as amended. Two successive enqueues put under the keys built from their own clock
  readings and random suffixes, and the two keys are equal exactly when both the clock
  readings and the suffixes are equal: the keys are distinct whenever the enqueue times
  or the suffixes differ, and nothing else keeps them apart. A put that does not throw
  replaces whatever the store held under its key, so after two enqueues with equal keys
  the store holds the second item under that key and the first is gone.
\<close>

theorem enqueue_keys_collide_iff:
  assumes "QUEUE_KV e"
  shows "kv_calls (queueInKV p e d2 (queueInKV p e d1 w)) =
           kv_calls w @
           [KV_put (queue_key (date_now p (clock_reads w)) (math_random p (random_draws w)))
              \<lparr>data = d1, timestamp = date_now p (clock_reads w + 1), retries = Some 0\<rparr> 86400,
            KV_put (queue_key (date_now p (clock_reads w + 2)) (math_random p (random_draws w + 1)))
              \<lparr>data = d2, timestamp = date_now p (clock_reads w + 3), retries = Some 0\<rparr> 86400]
       \<and> (queue_key (date_now p (clock_reads w)) (math_random p (random_draws w))
            = queue_key (date_now p (clock_reads w + 2)) (math_random p (random_draws w + 1))
          \<longleftrightarrow> date_now p (clock_reads w) = date_now p (clock_reads w + 2)
             \<and> math_random p (random_draws w) = math_random p (random_draws w + 1))
       \<and> (kv_fault p (length (kv_calls w)) = None \<longrightarrow>
            map_of (kv (queueInKV p e d1 w)) =
              (map_of (kv w))
                (queue_key (date_now p (clock_reads w)) (math_random p (random_draws w)) \<mapsto>
                   (\<lparr>data = d1, timestamp = date_now p (clock_reads w + 1), retries = Some 0\<rparr>, 86400)))
       \<and> (kv_fault p (length (kv_calls w)) = None \<and> kv_fault p (Suc (length (kv_calls w))) = None \<longrightarrow>
            map_of (kv (queueInKV p e d2 (queueInKV p e d1 w))) =
              (map_of (kv w))
                (queue_key (date_now p (clock_reads w)) (math_random p (random_draws w)) \<mapsto>
                   (\<lparr>data = d1, timestamp = date_now p (clock_reads w + 1), retries = Some 0\<rparr>, 86400),
                 queue_key (date_now p (clock_reads w + 2)) (math_random p (random_draws w + 1)) \<mapsto>
                   (\<lparr>data = d2, timestamp = date_now p (clock_reads w + 3), retries = Some 0\<rparr>, 86400))
          \<and> (queue_key (date_now p (clock_reads w)) (math_random p (random_draws w))
                = queue_key (date_now p (clock_reads w + 2)) (math_random p (random_draws w + 1)) \<longrightarrow>
              map_of (kv (queueInKV p e d2 (queueInKV p e d1 w)))
                (queue_key (date_now p (clock_reads w)) (math_random p (random_draws w)))
                = Some (\<lparr>data = d2, timestamp = date_now p (clock_reads w + 3), retries = Some 0\<rparr>, 86400)))"
  using assms
  by (simp add: queueInKV_calls queueInKV_store queueInKV_counters queue_key_inj update_conv'
      numeral_2_eq_2 numeral_3_eq_3)

theorem enqueue_keys_collide_iff_witness:
  "QUEUE_KV env_ok
   \<and> kv_calls (queueInKV (notion_always (Resolved (reply_with 429))) env_ok turn2
        (queueInKV (notion_always (Resolved (reply_with 429))) env_ok turn1 world0)) =
       [KV_put (queue_key 1700000000000 ''k3j9x0abc'')
          \<lparr>data = turn1, timestamp = 1700000000001, retries = Some 0\<rparr> 86400,
        KV_put (queue_key 1700000000002 ''k3j9x0abc'')
          \<lparr>data = turn2, timestamp = 1700000000003, retries = Some 0\<rparr> 86400]
   \<and> queue_key 1700000000000 ''k3j9x0abc'' \<noteq> queue_key 1700000000002 ''k3j9x0abc''
   \<and> kv_fault frozen (length (kv_calls world0)) = None \<and> kv_fault frozen (Suc (length (kv_calls world0))) = None
   \<and> queue_key (date_now frozen (clock_reads world0)) (math_random frozen (random_draws world0))
        = queue_key (date_now frozen (clock_reads world0 + 2)) (math_random frozen (random_draws world0 + 1))
   \<and> map_of (kv (queueInKV frozen env_ok turn2 (queueInKV frozen env_ok turn1 world0)))
        (queue_key 1700000000000 ''k3j9x0abc'')
        = Some (\<lparr>data = turn2, timestamp = 1700000000000, retries = Some 0\<rparr>, 86400)"
  using enqueue_keys_collide_iff [of env_ok "notion_always (Resolved (reply_with 429))" turn2 turn1 world0]
    enqueue_keys_collide_iff [of env_ok frozen turn2 turn1 world0]
  by (simp add: env_ok_def frozen_def)

text \<open>
  C8, as stated, fails: on a platform whose clock stands still and whose random suffix
  repeats, two enqueues put under the same key, and the store ends up holding the second
  event only.
\<close>

theorem enqueue_keys_collide:
  "kv_calls (queueInKV frozen env_ok turn2 (queueInKV frozen env_ok turn1 world0)) =
     [KV_put ''queue:1700000000000:k3j9x0abc'' \<lparr>data = turn1, timestamp = 1700000000000, retries = Some 0\<rparr> 86400,
      KV_put ''queue:1700000000000:k3j9x0abc'' \<lparr>data = turn2, timestamp = 1700000000000, retries = Some 0\<rparr> 86400]
   \<and> kv (queueInKV frozen env_ok turn2 (queueInKV frozen env_ok turn1 world0)) =
     [(''queue:1700000000000:k3j9x0abc'', \<lparr>data = turn2, timestamp = 1700000000000, retries = Some 0\<rparr>, 86400)]"
  by (simp add: run_defs show_nat_now)

end
